theory Spec2Isabelle
  imports Complex_Main
begin

section \<open>Characters and strings\<close>

text \<open>
  The statement processor (\<^verbatim>\<open>TransactionHistoryProcessor\<close> in
  \<^verbatim>\<open>src/backend/server.js\<close>) works on JavaScript strings. A string is modelled
  as a list of characters, an index as a natural number, and \<open>-1\<close> ("not found")
  as \<open>None\<close>. The model covers ASCII text: case mapping touches the letters
  \<open>a..z\<close>/\<open>A..Z\<close> only, and white space is the six ASCII white-space characters
  that \<^verbatim>\<open>\s\<close> and \<^verbatim>\<open>trim\<close> accept.
\<close>

definition isDigit :: "char \<Rightarrow> bool" where
  "isDigit c = (c \<in> set ''0123456789'')"

definition isSpace :: "char \<Rightarrow> bool" where
  "isSpace c = (c \<in> set [CHR 0x09, CHR 0x0A, CHR 0x0B, CHR 0x0C, CHR 0x0D, CHR '' ''])"

definition toUpperChar :: "char \<Rightarrow> char" where
  "toUpperChar c =
     (case map_of (zip ''abcdefghijklmnopqrstuvwxyz'' ''ABCDEFGHIJKLMNOPQRSTUVWXYZ'') c of
        Some u \<Rightarrow> u | None \<Rightarrow> c)"

definition toLowerChar :: "char \<Rightarrow> char" where
  "toLowerChar c =
     (case map_of (zip ''ABCDEFGHIJKLMNOPQRSTUVWXYZ'' ''abcdefghijklmnopqrstuvwxyz'') c of
        Some l \<Rightarrow> l | None \<Rightarrow> c)"

definition toUpperCase :: "string \<Rightarrow> string" where
  "toUpperCase s = map toUpperChar s"

definition toLowerCase :: "string \<Rightarrow> string" where
  "toLowerCase s = map toLowerChar s"

definition trim :: "string \<Rightarrow> string" where
  "trim s = rev (dropWhile isSpace (rev (dropWhile isSpace s)))"

fun startsWith :: "string \<Rightarrow> string \<Rightarrow> bool" where
  "startsWith s [] = True"
| "startsWith [] (p # ps) = False"
| "startsWith (c # cs) (p # ps) = (c = p \<and> startsWith cs ps)"

text \<open>\<^verbatim>\<open>s.includes(sub)\<close>.\<close>

fun includes_str :: "string \<Rightarrow> string \<Rightarrow> bool" where
  "includes_str [] sub = (sub = [])"
| "includes_str (c # cs) sub = (startsWith (c # cs) sub \<or> includes_str cs sub)"

text \<open>
  \<^verbatim>\<open>s.lastIndexOf(sub)\<close>: \<open>lastIndexFrom s sub i\<close> searches the suffix \<open>s\<close> that
  starts at index \<open>i\<close> of the whole string.
\<close>

fun lastIndexFrom :: "string \<Rightarrow> string \<Rightarrow> nat \<Rightarrow> nat option" where
  "lastIndexFrom [] sub i = (if sub = [] then Some i else None)"
| "lastIndexFrom (c # cs) sub i =
     (case lastIndexFrom cs sub (Suc i) of
        Some j \<Rightarrow> Some j
      | None \<Rightarrow> if startsWith (c # cs) sub then Some i else None)"

definition lastIndexOf :: "string \<Rightarrow> string \<Rightarrow> nat option" where
  "lastIndexOf s sub = lastIndexFrom s sub 0"

text \<open>\<^verbatim>\<open>s.replace(sub, '')\<close> with a string pattern: the first occurrence is removed.\<close>

fun removeFirst :: "string \<Rightarrow> string \<Rightarrow> string" where
  "removeFirst [] sub = []"
| "removeFirst (c # cs) sub =
     (if startsWith (c # cs) sub then drop (length sub) (c # cs) else c # removeFirst cs sub)"

text \<open>\<^verbatim>\<open>s.split(sep)\<close> for a one-character separator.\<close>

fun split :: "char \<Rightarrow> string \<Rightarrow> string list" where
  "split sep [] = [[]]"
| "split sep (c # cs) =
     (if c = sep then [] # split sep cs
      else (case split sep cs of p # ps \<Rightarrow> (c # p) # ps | [] \<Rightarrow> [[c]]))"

section \<open>Regular expressions\<close>

text \<open>
  The regular expressions of the source use characters, character classes, sequence,
  alternation and the greedy quantifiers \<^verbatim>\<open>?\<close>, \<^verbatim>\<open>*\<close>, \<^verbatim>\<open>+\<close>, \<^verbatim>\<open>{n}\<close>,
  \<^verbatim>\<open>{1,2}\<close>. \<open>rmatch r s\<close> lists, in the order a backtracking matcher tries them,
  the rests of \<open>s\<close> that remain after \<open>r\<close> has matched a prefix of \<open>s\<close>; the head of
  the list is the match JavaScript reports. An iteration of \<^verbatim>\<open>*\<close> that consumes
  nothing is rejected, as in ECMAScript.
\<close>

datatype regex =
  Eps
  | Atom "char \<Rightarrow> bool"
  | Seq regex regex
  | Alt regex regex
  | Opt regex
  | Star regex

fun rmatch :: "regex \<Rightarrow> string \<Rightarrow> string list" where
  "rmatch Eps s = [s]"
| "rmatch (Atom p) [] = []"
| "rmatch (Atom p) (c # cs) = (if p c then [cs] else [])"
| "rmatch (Seq a b) s = concat (map (rmatch b) (rmatch a s))"
| "rmatch (Alt a b) s = rmatch a s @ rmatch b s"
| "rmatch (Opt a) s = rmatch a s @ [s]"
| "rmatch (Star a) s =
     concat (map (\<lambda>s'. if length s' < length s then rmatch (Star a) s' else [])
       (rmatch a s)) @ [s]"

text \<open>The equation for \<open>Star\<close> is applied by hand: as a rewrite rule it would unfold itself.\<close>

declare rmatch.simps(7) [simp del]

definition Plus :: "regex \<Rightarrow> regex" where
  "Plus r = Seq r (Star r)"

definition chr :: "char \<Rightarrow> regex" where
  "chr c = Atom (\<lambda>x. x = c)"

definition digit :: regex where
  "digit = Atom isDigit"

definition space :: regex where
  "space = Atom isSpace"

text \<open>A literal word, and the same under the \<^verbatim>\<open>i\<close> flag.\<close>

definition lit :: "string \<Rightarrow> regex" where
  "lit w = foldr (\<lambda>c r. Seq (chr c) r) w Eps"

definition litCI :: "string \<Rightarrow> regex" where
  "litCI w = foldr (\<lambda>c r. Seq (Atom (\<lambda>x. toUpperChar x = toUpperChar c)) r) w Eps"

text \<open>\<^verbatim>\<open>regex.test(s)\<close> for a regular expression without the \<^verbatim>\<open>g\<close> flag.\<close>

fun found :: "regex \<Rightarrow> string \<Rightarrow> bool" where
  "found r [] = (rmatch r [] \<noteq> [])"
| "found r (c # cs) = (rmatch r (c # cs) \<noteq> [] \<or> found r cs)"

text \<open>
  \<^verbatim>\<open>s.replace(regex, rep)\<close> with the \<^verbatim>\<open>g\<close> flag: every match, from left to
  right, is replaced; after an empty match the next character is kept.
\<close>

function replaceAll :: "regex \<Rightarrow> string \<Rightarrow> string \<Rightarrow> string" where
  "replaceAll r rep [] = (case rmatch r [] of [] \<Rightarrow> [] | _ # _ \<Rightarrow> rep)"
| "replaceAll r rep (c # cs) =
     (case rmatch r (c # cs) of
        [] \<Rightarrow> c # replaceAll r rep cs
      | rest # _ \<Rightarrow>
          if length rest < length (c # cs) then rep @ replaceAll r rep rest
          else rep @ c # replaceAll r rep cs)"
  by pat_completeness auto
termination
  by (relation "measure (\<lambda>(r, rep, s). length s)") auto

text \<open>
  A regular expression with one capture group: what stands before the group, the
  group, and what stands after it. \<open>source\<close> is the text \<^verbatim>\<open>toString()\<close> returns.
\<close>

record pattern =
  source :: string
  before :: regex
  group :: regex
  after :: regex

text \<open>
  The backtracking order of a match at the start of \<open>s\<close>: each result is the text
  the group captured and the rest of \<open>s\<close> after the whole match.
\<close>

definition matchHere :: "pattern \<Rightarrow> string \<Rightarrow> (string \<times> string) list" where
  "matchHere p s =
     concat (map (\<lambda>s1.
       concat (map (\<lambda>s2.
         map (\<lambda>s3. (take (length s1 - length s2) s1, s3)) (rmatch (after p) s2))
         (rmatch (group p) s1)))
       (rmatch (before p) s))"

text \<open>
  The search of \<^verbatim>\<open>RegExpBuiltinExec\<close>: \<open>s\<close> is the suffix of the line at index \<open>i\<close>;
  the result is the index of the match, the capture and the index after the match.
\<close>

fun scan :: "pattern \<Rightarrow> string \<Rightarrow> nat \<Rightarrow> (nat \<times> string \<times> nat) option" where
  "scan p [] i =
     (case matchHere p [] of [] \<Rightarrow> None | (cap, rest) # _ \<Rightarrow> Some (i, cap, i))"
| "scan p (c # cs) i =
     (case matchHere p (c # cs) of
        [] \<Rightarrow> scan p cs (Suc i)
      | (cap, rest) # _ \<Rightarrow> Some (i, cap, i + (length (c # cs) - length rest)))"

text \<open>
  \<^verbatim>\<open>regex.exec(line)\<close> for a regular expression with the \<^verbatim>\<open>g\<close> flag whose
  \<^verbatim>\<open>lastIndex\<close> is \<open>li\<close>. On \<open>Some (i, cap, e)\<close> the new \<^verbatim>\<open>lastIndex\<close> is \<open>e\<close>;
  on \<open>None\<close> it is \<open>0\<close>.
\<close>

definition exec :: "pattern \<Rightarrow> string \<Rightarrow> nat \<Rightarrow> (nat \<times> string \<times> nat) option" where
  "exec p line li = (if length line < li then None else scan p (drop li line) li)"

lemma scan_bounds: "scan p s i = Some (j, cap, e) \<Longrightarrow> i \<le> j \<and> j \<le> e"
  by (induction p s i rule: scan.induct) (auto split: list.splits prod.splits)

lemma exec_bounds: "exec p line li = Some (j, cap, e) \<Longrightarrow> li \<le> length line \<and> li \<le> j \<and> j \<le> e"
  using scan_bounds by (fastforce simp: exec_def split: if_splits)

text \<open>
  \<^verbatim>\<open>[...line.matchAll(regex)]\<close>: the iterator works on a copy of the regular
  expression that starts at the \<^verbatim>\<open>lastIndex\<close> of the original, \<open>li\<close>, and leaves
  the original untouched. The result lists the captures of the matches.
\<close>

function matchAll :: "pattern \<Rightarrow> string \<Rightarrow> nat \<Rightarrow> string list" where
  "matchAll p line li =
     (case exec p line li of
        None \<Rightarrow> []
      | Some (i, cap, e) \<Rightarrow> cap # matchAll p line (if e = i then Suc e else e))"
  by pat_completeness auto
termination
proof (relation "measure (\<lambda>(p, line, li). Suc (length line) - li)")
  show "wf (measure (\<lambda>(p, line, li). Suc (length line) - li))"
    by simp
next
  fix p :: pattern and line :: string and li :: nat
  fix x2 :: "nat \<times> string \<times> nat" and i :: nat and y :: "string \<times> nat"
  fix cap :: string and e :: nat
  assume "exec p line li = Some x2" "(i, y) = x2" "(cap, e) = y"
  then have "exec p line li = Some (i, cap, e)"
    by simp
  from exec_bounds [OF this]
  show "((p, line, if e = i then Suc e else e), (p, line, li))
          \<in> measure (\<lambda>(p, line, li). Suc (length line) - li)"
    by auto
qed

declare matchAll.simps [simp del]

text \<open>
  \<^verbatim>\<open>line.match(regex)\<close> with the \<^verbatim>\<open>g\<close> flag: \<^verbatim>\<open>lastIndex\<close> is reset to \<open>0\<close>,
  the result lists the matched substrings (not the capture groups), and
  \<^verbatim>\<open>lastIndex\<close> is \<open>0\<close> again afterwards; \<open>[]\<close> stands for \<^verbatim>\<open>null\<close>. The date
  patterns put the whole expression in their group, so the capture is the match.
\<close>

definition stringMatch :: "pattern \<Rightarrow> string \<Rightarrow> string list" where
  "stringMatch p line = matchAll p line 0"

section \<open>Numbers\<close>

text \<open>
  A JavaScript number is an IEEE 754 double, and the model computes with doubles
  exactly. A finite double is named by the decimal that its string form shows:
  \<open>Decimal m k\<close> is the double whose shortest decimal form, the digits that
  \<^verbatim>\<open>Number.prototype.toString\<close> prints, is \<open>m / 10 ^ k\<close>. \<open>Infinity\<close> is the
  double that a numeral too large for a finite double rounds to. \<^verbatim>\<open>NaN\<close> is
  \<open>None\<close>, like \<^verbatim>\<open>null\<close>: both are falsy.
\<close>

datatype number = Decimal int nat | Infinity

text \<open>
  The value of the shortest decimal form; for \<open>Infinity\<close> the bound \<open>2 ^ 1024\<close>
  that stands for it in IEEE rounding.
\<close>

definition numberValue :: "number \<Rightarrow> rat" where
  "numberValue n = (case n of Decimal m k \<Rightarrow> of_int m / 10 ^ k | Infinity \<Rightarrow> 2 ^ 1024)"

text \<open>Truthiness of a number, and the comparison \<^verbatim>\<open>n > 0\<close>.\<close>

definition truthyNumber :: "number \<Rightarrow> bool" where
  "truthyNumber n = (case n of Decimal m k \<Rightarrow> m \<noteq> 0 | Infinity \<Rightarrow> True)"

definition positive :: "number \<Rightarrow> bool" where
  "positive n = (case n of Decimal m k \<Rightarrow> 0 < m | Infinity \<Rightarrow> True)"

text \<open>
  The decimal digits of a non-negative integer, and the value of a string of
  digits.
\<close>

definition digitChar :: "int \<Rightarrow> char" where
  "digitChar d = ''0123456789'' ! nat d"

definition digitVal :: "char \<Rightarrow> int" where
  "digitVal c = int (of_char c) - 48"

function digitsOf :: "int \<Rightarrow> string" where
  "digitsOf n = (if n < 10 then [digitChar n] else digitsOf (n div 10) @ [digitChar (n mod 10)])"
  by pat_completeness auto
termination
  by (relation "measure nat") auto

declare digitsOf.simps [simp del]

definition valueOfDigits :: "string \<Rightarrow> int" where
  "valueOfDigits s = foldl (\<lambda>a c. 10 * a + digitVal c) 0 s"

definition stripTrailingZeros :: "string \<Rightarrow> string" where
  "stripTrailingZeros s = rev (dropWhile (\<lambda>c. c = CHR ''0'') (rev s))"

subsection \<open>Rounding to a double\<close>

text \<open>
  A non-negative rational is a fraction \<open>a / b\<close> of integers with \<open>0 < b\<close>.
  \<open>floorLog base a b\<close> is the integer \<open>l\<close> with
  \<open>base ^ l \<le> a / b < base ^ (l + 1)\<close>, for \<open>0 < a\<close>: \<open>countUp\<close> counts how often
  the denominator can be multiplied by the base without passing the numerator,
  \<open>countDown\<close> how often the numerator must be multiplied to reach the
  denominator.
\<close>

function countUp :: "int \<Rightarrow> int \<Rightarrow> int \<Rightarrow> nat" where
  "countUp base a p =
     (if base < 2 \<or> p \<le> 0 \<or> a < base * p then 0 else Suc (countUp base a (base * p)))"
  by pat_completeness auto
termination
proof (relation "measure (\<lambda>(base, a, p). nat (a - p))")
  show "wf (measure (\<lambda>(base, a, p). nat (a - p)))"
    by simp
next
  fix base a p :: int
  assume "\<not> (base < 2 \<or> p \<le> 0 \<or> a < base * p)"
  then have "2 \<le> base" "0 < p" "base * p \<le> a"
    by simp_all
  moreover from this have "2 * p \<le> base * p"
    by (intro mult_right_mono) simp_all
  ultimately have "nat (a - base * p) < nat (a - p)"
    by linarith
  then show "((base, a, base * p), (base, a, p)) \<in> measure (\<lambda>(base, a, p). nat (a - p))"
    by simp
qed

function countDown :: "int \<Rightarrow> int \<Rightarrow> int \<Rightarrow> nat" where
  "countDown base a b =
     (if base < 2 \<or> a \<le> 0 \<or> b \<le> a then 0 else Suc (countDown base (base * a) b))"
  by pat_completeness auto
termination
proof (relation "measure (\<lambda>(base, a, b). nat (b - a))")
  show "wf (measure (\<lambda>(base, a, b). nat (b - a)))"
    by simp
next
  fix base a b :: int
  assume "\<not> (base < 2 \<or> a \<le> 0 \<or> b \<le> a)"
  then have "2 \<le> base" "0 < a" "a < b"
    by simp_all
  moreover from this have "2 * a \<le> base * a"
    by (intro mult_right_mono) simp_all
  ultimately have "nat (b - base * a) < nat (b - a)"
    by linarith
  then show "((base, base * a, b), (base, a, b)) \<in> measure (\<lambda>(base, a, b). nat (b - a))"
    by simp
qed

declare countUp.simps [simp del]

declare countDown.simps [simp del]

definition floorLog :: "int \<Rightarrow> int \<Rightarrow> int \<Rightarrow> int" where
  "floorLog base a b = (if b \<le> a then int (countUp base a b) else - int (countDown base a b))"

text \<open>The integer nearest to \<open>a / b\<close>, the even one of two that are equally near.\<close>

definition roundHalfEven :: "int \<Rightarrow> int \<Rightarrow> int" where
  "roundHalfEven a b =
     (let q = a div b;
          r = a mod b
      in if 2 * r < b then q
         else if b < 2 * r then q + 1
         else if even q then q else q + 1)"

text \<open>
  A finite double is \<open>m * 2 ^ e\<close> with \<open>2 ^ 52 \<le> m < 2 ^ 53\<close> and
  \<open>-1074 \<le> e \<le> 971\<close>, or with \<open>m < 2 ^ 52\<close> and \<open>e = -1074\<close> (zero and the
  subnormal numbers). \<open>round64 a b\<close> is the double nearest to \<open>a / b\<close> in this form,
  ties going to the even significand, and \<open>None\<close> when that is infinity.
\<close>

definition round64 :: "int \<Rightarrow> int \<Rightarrow> (int \<times> int) option" where
  "round64 a b =
     (if a \<le> 0 then Some (0, - 1074)
      else
        let e = max (floorLog 2 a b - 52) (- 1074);
            m = (if 0 \<le> e then roundHalfEven a (b * 2 ^ nat e)
                 else roundHalfEven (a * 2 ^ nat (- e)) b);
            e' = (if m = 2 ^ 53 then e + 1 else e);
            m' = (if m = 2 ^ 53 then 2 ^ 52 else m)
        in if 971 < e' then None else Some (m', e'))"

text \<open>The value of a double, and \<open>s * 10 ^ p\<close>, as fractions.\<close>

definition doubleFraction :: "int \<times> int \<Rightarrow> int \<times> int" where
  "doubleFraction x =
     (case x of (m, e) \<Rightarrow> if 0 \<le> e then (m * 2 ^ nat e, 1) else (m, 2 ^ nat (- e)))"

definition decimalFraction :: "int \<Rightarrow> int \<Rightarrow> int \<times> int" where
  "decimalFraction s p = (if 0 \<le> p then (s * 10 ^ nat p, 1) else (s, 10 ^ nat (- p)))"

subsection \<open>The shortest decimal form\<close>

text \<open>
  Number::toString of ECMAScript takes integers \<open>n\<close>, \<open>k\<close>, \<open>s\<close> with
  \<open>10 ^ (k - 1) \<le> s < 10 ^ k\<close> such that \<open>s * 10 ^ (n - k)\<close> rounds to the double,
  \<open>k\<close> as small as possible and, for that \<open>k\<close>, \<open>s * 10 ^ (n - k)\<close> as near to the
  double as possible. For a given \<open>k\<close> the nearest decimals of \<open>k\<close> digits below and
  above the double are the only candidates. \<open>candidate x k\<close> is the chosen
  \<open>(s, n - k)\<close>, if one of the two rounds to \<open>x\<close>.
\<close>

definition candidate :: "int \<times> int \<Rightarrow> int \<Rightarrow> (int \<times> int) option" where
  "candidate x k =
     (case doubleFraction x of
        (vn, vd) \<Rightarrow>
          let p = floorLog 10 vn vd + 1 - k;
              lo = (if 0 \<le> p then vn div (vd * 10 ^ nat p) else (vn * 10 ^ nat (- p)) div vd);
              hi = lo + 1;
              okLo = (case decimalFraction lo p of (a, b) \<Rightarrow> round64 a b = Some x);
              okHi = (case decimalFraction hi p of (a, b) \<Rightarrow> round64 a b = Some x);
              den = snd (decimalFraction lo p);
              below = vn * den - fst (decimalFraction lo p) * vd;
              above = fst (decimalFraction hi p) * vd - vn * den
          in if okLo \<and> okHi then
               (if below < above then Some (lo, p)
                else if above < below then Some (hi, p)
                else if even lo then Some (lo, p) else Some (hi, p))
             else if okLo then Some (lo, p)
             else if okHi then Some (hi, p)
             else None)"

text \<open>
  Seventeen digits always suffice for a double; the case of the empty list gives
  its exact value \<open>m * 5 ^ (- e) / 10 ^ (- e)\<close>.
\<close>

fun shortest :: "int \<times> int \<Rightarrow> int list \<Rightarrow> int \<times> int" where
  "shortest x [] = (case x of (m, e) \<Rightarrow> if 0 \<le> e then (m * 2 ^ nat e, 0) else (m * 5 ^ nat (- e), e))"
| "shortest x (k # ks) = (case candidate x k of Some c \<Rightarrow> c | None \<Rightarrow> shortest x ks)"

text \<open>\<open>s * 10 ^ p\<close> as a number: an integer, or a fraction without trailing zeros.\<close>

function normalize :: "int \<Rightarrow> nat \<Rightarrow> number" where
  "normalize s k =
     (if 0 < k \<and> s \<noteq> 0 \<and> s mod 10 = 0 then normalize (s div 10) (k - 1) else Decimal s k)"
  by pat_completeness auto
termination
  by (relation "measure (\<lambda>(s, k). k)") auto

declare normalize.simps [simp del]

definition numberOfDouble :: "int \<times> int \<Rightarrow> number" where
  "numberOfDouble x =
     (if fst x = 0 then Decimal 0 0
      else
        (case shortest x [1, 2, 3, 4, 5, 6, 7, 8, 9, 10, 11, 12, 13, 14, 15, 16, 17] of
           (s, p) \<Rightarrow> if 0 \<le> p then Decimal (s * 10 ^ nat p) 0 else normalize s (nat (- p))))"

text \<open>
  \<^verbatim>\<open>parseFloat(s)\<close> on a string that begins with a digit: the digits, and after a
  point the digits that follow it, are read, the rest is ignored, and the decimal
  read is rounded to a double. A string that does not begin with a digit gives
  \<^verbatim>\<open>NaN\<close> here (the other forms of a numeric literal, a sign, white space, a
  leading point, an exponent, cannot occur in what the amount patterns capture).
\<close>

definition parseFloat :: "string \<Rightarrow> number option" where
  "parseFloat s =
     (let ip = takeWhile isDigit s;
          r = dropWhile isDigit s;
          fr = (case r of [] \<Rightarrow> [] | c # r' \<Rightarrow> if c = CHR ''.'' then takeWhile isDigit r' else [])
      in if ip = [] then None
         else
           (case round64 (valueOfDigits (ip @ fr)) (10 ^ length fr) of
              None \<Rightarrow> Some Infinity
            | Some x \<Rightarrow> Some (numberOfDouble x)))"

text \<open>
  \<^verbatim>\<open>Number.prototype.toString\<close> (ECMAScript, Number::toString, radix 10): with the
  digits \<open>sd\<close> of the shortest decimal form and \<open>n\<close> the position of the decimal
  point, the result is plain notation for \<open>-6 < n \<le> 21\<close> and exponential notation
  otherwise.
\<close>

definition numberToString :: "number \<Rightarrow> string" where
  "numberToString x =
     (case x of
        Infinity \<Rightarrow> ''Infinity''
      | Decimal m k \<Rightarrow>
        if m = 0 then ''0''
        else
          let sgn = (if m < 0 then ''-'' else []);
              ds = digitsOf \<bar>m\<bar>;
              n = int (length ds) - int k;
              sd = stripTrailingZeros ds;
              kk = int (length sd)
          in sgn @
            (if kk \<le> n \<and> n \<le> 21 then sd @ replicate (nat (n - kk)) CHR ''0''
             else if 0 < n \<and> n \<le> 21 then take (nat n) sd @ ''.'' @ drop (nat n) sd
             else if - 6 < n \<and> n \<le> 0 then ''0.'' @ replicate (nat (- n)) CHR ''0'' @ sd
             else
               let e = n - 1;
                   es = (if e < 0 then ''-'' else ''+'') @ digitsOf \<bar>e\<bar>
               in if kk = 1 then sd @ ''e'' @ es
                  else take 1 sd @ ''.'' @ drop 1 sd @ ''e'' @ es))"

section \<open>Dates\<close>

text \<open>
  Time values are integers (milliseconds since the epoch, UTC), \<open>None\<close> is an
  invalid date (\<^verbatim>\<open>NaN\<close>). The calendar functions are those of ECMAScript's
  Date objects, on day numbers.
\<close>

definition msPerDay :: int where
  "msPerDay = 86400000"

definition DayFromYear :: "int \<Rightarrow> int" where
  "DayFromYear y =
     365 * (y - 1970) + (y - 1969) div 4 - (y - 1901) div 100 + (y - 1601) div 400"

definition InLeapYear :: "int \<Rightarrow> bool" where
  "InLeapYear y =
     (if y mod 4 \<noteq> 0 then False else if y mod 100 \<noteq> 0 then True else y mod 400 = 0)"

text \<open>
  \<^verbatim>\<open>YearFromTime\<close>: the largest year \<open>y\<close> with \<open>DayFromYear y \<le> day\<close>. The
  Gregorian mean year gives an estimate that is off by at most one.
\<close>

definition YearFromDay :: "int \<Rightarrow> int" where
  "YearFromDay day =
     (let y = 1970 + (400 * day) div 146097
      in if DayFromYear (y + 1) \<le> day then y + 1
         else if DayFromYear y \<le> day then y
         else y - 1)"

text \<open>The day within its year on which month \<open>mn\<close> (\<open>0..11\<close>) begins.\<close>

definition monthStart :: "int \<Rightarrow> bool \<Rightarrow> int" where
  "monthStart mn leap =
     [0, 31, 59, 90, 120, 151, 181, 212, 243, 273, 304, 334] ! nat mn
       + (if leap \<and> 2 \<le> mn then 1 else 0)"

text \<open>\<^verbatim>\<open>MonthFromTime\<close> and \<^verbatim>\<open>DateFromTime\<close>, from the day within the year.\<close>

definition MonthFromDay :: "int \<Rightarrow> bool \<Rightarrow> int" where
  "MonthFromDay dwy leap =
     (let l = (if leap then 1 else 0)
      in if dwy < 31 then 0
         else if dwy < 59 + l then 1
         else if dwy < 90 + l then 2
         else if dwy < 120 + l then 3
         else if dwy < 151 + l then 4
         else if dwy < 181 + l then 5
         else if dwy < 212 + l then 6
         else if dwy < 243 + l then 7
         else if dwy < 273 + l then 8
         else if dwy < 304 + l then 9
         else if dwy < 334 + l then 10
         else 11)"

definition DateFromDay :: "int \<Rightarrow> bool \<Rightarrow> int" where
  "DateFromDay dwy leap = dwy - monthStart (MonthFromDay dwy leap) leap + 1"

text \<open>
  \<^verbatim>\<open>MakeDay(year, month, date)\<close>: a month outside \<open>0..11\<close> carries into the year
  and a date outside the month carries into the following (or preceding) months.
\<close>

definition MakeDay :: "int \<Rightarrow> int \<Rightarrow> int \<Rightarrow> int" where
  "MakeDay y m dt =
     (let ym = y + m div 12;
          mn = m mod 12
      in DayFromYear ym + monthStart mn (InLeapYear ym) + dt - 1)"

definition TimeClip :: "int \<Rightarrow> int option" where
  "TimeClip t = (if \<bar>t\<bar> \<le> 8640000000000000 then Some t else None)"

text \<open>
  \<^verbatim>\<open>ToNumber\<close> of a string, for the strings a date token splits into: the empty
  string is \<open>0\<close>, a string of digits is its decimal value, anything else is
  \<^verbatim>\<open>NaN\<close> (signs, fractions, exponents and radix prefixes do not occur in a
  token that a date pattern matched).
\<close>

definition toNumber :: "string \<Rightarrow> int option" where
  "toNumber s =
     (let w = trim s
      in if w = [] then Some 0
         else if list_all isDigit w then Some (valueOfDigits w)
         else None)"

text \<open>
  \<^verbatim>\<open>new Date(year, month, date)\<close>: the arguments are numbers (\<open>None\<close> is
  \<^verbatim>\<open>NaN\<close>), a year in \<open>0..99\<close> means \<open>1900 + year\<close>, and the fields are local
  time. \<open>tz\<close> is the offset of local time from UTC in milliseconds at a given local
  time (\<^verbatim>\<open>LocalTZA\<close>); it belongs to the environment of the process.
\<close>

definition newDate :: "(int \<Rightarrow> int) \<Rightarrow> int option \<Rightarrow> int option \<Rightarrow> int option \<Rightarrow> int option" where
  "newDate tz y m dt =
     (case (y, m, dt) of
        (Some y', Some m', Some dt') \<Rightarrow>
          (let yr = (if 0 \<le> y' \<and> y' \<le> 99 then 1900 + y' else y');
               t = MakeDay yr m' dt' * msPerDay
           in TimeClip (t - tz t))
      | _ \<Rightarrow> None)"

text \<open>A process whose local time is UTC.\<close>

definition utc :: "int \<Rightarrow> int" where
  "utc t = 0"

definition padStart :: "nat \<Rightarrow> string \<Rightarrow> string" where
  "padStart n s = replicate (n - length s) CHR ''0'' @ s"

text \<open>
  The date part of \<^verbatim>\<open>toISOString()\<close>, that is
  \<^verbatim>\<open>date.toISOString().split('T')[0]\<close>, of a valid time value: the UTC calendar
  date, with a four-digit year in \<open>0..9999\<close> and a signed six-digit year otherwise.
\<close>

definition yearString :: "int \<Rightarrow> string" where
  "yearString y =
     (if 0 \<le> y \<and> y \<le> 9999 then padStart 4 (digitsOf y)
      else (if y < 0 then ''-'' else ''+'') @ padStart 6 (digitsOf \<bar>y\<bar>))"

definition toISODate :: "int \<Rightarrow> string" where
  "toISODate t =
     (let day = t div msPerDay;
          y = YearFromDay day;
          dwy = day - DayFromYear y;
          leap = InLeapYear y
      in yearString y @ ''-'' @ padStart 2 (digitsOf (MonthFromDay dwy leap + 1))
           @ ''-'' @ padStart 2 (digitsOf (DateFromDay dwy leap)))"

text \<open>
  \<^verbatim>\<open>new Date(s)\<close> for a string in the date-only ISO form, \<^verbatim>\<open>YYYY-MM-DD\<close> or
  \<^verbatim>\<open>+YYYYYY-MM-DD\<close>/\<^verbatim>\<open>-YYYYYY-MM-DD\<close>, which is read as UTC. Every other
  string is an invalid date here: the strings that reach this function are results
  of \<open>toISODate\<close>.
\<close>

definition parseYear :: "string \<Rightarrow> int option" where
  "parseYear s =
     (case s of
        [] \<Rightarrow> None
      | c # cs \<Rightarrow>
          if c = CHR ''+'' \<or> c = CHR ''-'' then
            (if length cs = 6 \<and> list_all isDigit cs
                \<and> (c = CHR ''+'' \<or> valueOfDigits cs \<noteq> 0)
             then Some ((if c = CHR ''-'' then - 1 else 1) * valueOfDigits cs)
             else None)
          else if length s = 4 \<and> list_all isDigit s then Some (valueOfDigits s)
          else None)"

definition parseTwoDigits :: "string \<Rightarrow> int option" where
  "parseTwoDigits s =
     (if length s = 2 \<and> list_all isDigit s then Some (valueOfDigits s) else None)"

definition dateParse :: "string \<Rightarrow> int option" where
  "dateParse s =
     (let n = length s
      in if n < 6 \<or> s ! (n - 3) \<noteq> CHR ''-'' \<or> s ! (n - 6) \<noteq> CHR ''-'' then None
         else
           (case (parseYear (take (n - 6) s),
                  parseTwoDigits (take 2 (drop (n - 5) s)),
                  parseTwoDigits (drop (n - 2) s)) of
              (Some y, Some m, Some d) \<Rightarrow>
                if 1 \<le> m \<and> m \<le> 12 \<and> 1 \<le> d \<and> d \<le> 31
                then TimeClip (MakeDay y (m - 1) d * msPerDay)
                else None
            | _ \<Rightarrow> None))"

text \<open>
  \<open>normalizeDate\<close>: the argument is \<open>None\<close> when the caller passes
  \<^verbatim>\<open>undefined\<close>; then \<^verbatim>\<open>dateString.includes\<close> throws, the \<^verbatim>\<open>catch\<close> logs the
  error and the function returns \<^verbatim>\<open>null\<close>.
\<close>

definition normalizeDate :: "(int \<Rightarrow> int) \<Rightarrow> string option \<Rightarrow> string option" where
  "normalizeDate tz dateString =
     (case dateString of
        None \<Rightarrow> None
      | Some s \<Rightarrow>
          (let date =
             (if includes_str s ''/'' then
                (case split CHR ''/'' s of
                   [p0, p1, p2] \<Rightarrow>
                     newDate tz (toNumber p2) (map_option (\<lambda>m. m - 1) (toNumber p0)) (toNumber p1)
                 | _ \<Rightarrow> None)
              else if includes_str s ''-'' then
                (case split CHR ''-'' s of
                   [p0, p1, p2] \<Rightarrow>
                     if length p0 = 4 then
                       newDate tz (toNumber p0) (map_option (\<lambda>m. m - 1) (toNumber p1)) (toNumber p2)
                     else
                       newDate tz (toNumber p2) (map_option (\<lambda>m. m - 1) (toNumber p1)) (toNumber p0)
                 | _ \<Rightarrow> None)
              else None)
           in map_option toISODate date))"

section \<open>The patterns and tables of the processor\<close>

text \<open>
  The constructor of \<^verbatim>\<open>TransactionHistoryProcessor\<close> builds the regular
  expressions once; \<^verbatim>\<open>module.exports\<close> is a single instance, so every call works
  on the same objects. All of them carry the \<^verbatim>\<open>g\<close> flag.
\<close>

definition bs :: char where
  "bs = CHR 0x5C"

text \<open>The numeral \<^verbatim>\<open>(\d+,?\d*\.?\d*)\<close> that every amount pattern captures.\<close>

definition amountNumeral :: regex where
  "amountNumeral =
     Seq (Plus digit) (Seq (Opt (chr CHR '','')) (Seq (Star digit)
       (Seq (Opt (chr CHR ''.'')) (Star digit))))"

definition amountNumeralSource :: string where
  "amountNumeralSource = ''('' @ bs # ''d+,?'' @ bs # ''d*'' @ bs # ''.?'' @ bs # ''d*)''"

definition amountPatterns :: "pattern list" where
  "amountPatterns =
     [\<lparr> source = ''/'' @ bs # ''$'' @ amountNumeralSource @ ''/g'',
        before = chr CHR ''$'', group = amountNumeral, after = Eps \<rparr>,
      \<lparr> source = ''/'' @ amountNumeralSource @ bs # ''s*CR/g'',
        before = Eps, group = amountNumeral, after = Seq (Star space) (lit ''CR'') \<rparr>,
      \<lparr> source = ''/'' @ amountNumeralSource @ bs # ''s*DR/g'',
        before = Eps, group = amountNumeral, after = Seq (Star space) (lit ''DR'') \<rparr>,
      \<lparr> source = ''/-'' @ bs # ''$?'' @ amountNumeralSource @ ''/g'',
        before = Seq (chr CHR ''-'') (Opt (chr CHR ''$'')), group = amountNumeral, after = Eps \<rparr>,
      \<lparr> source = ''/'' @ amountNumeralSource @ ''-/g'',
        before = Eps, group = amountNumeral, after = chr CHR ''-'' \<rparr>]"

definition digits12 :: regex where
  "digits12 = Seq digit (Opt digit)"

definition digits4 :: regex where
  "digits4 = Seq digit (Seq digit (Seq digit digit))"

definition datePatterns :: "pattern list" where
  "datePatterns =
     [\<lparr> source = ''/('' @ bs # ''d{1,2}'' @ bs # ''/'' @ bs # ''d{1,2}'' @ bs # ''/'' @ bs # ''d{4})/g'',
        before = Eps,
        group = Seq digits12 (Seq (chr CHR ''/'') (Seq digits12 (Seq (chr CHR ''/'') digits4))),
        after = Eps \<rparr>,
      \<lparr> source = ''/('' @ bs # ''d{1,2}-'' @ bs # ''d{1,2}-'' @ bs # ''d{4})/g'',
        before = Eps,
        group = Seq digits12 (Seq (chr CHR ''-'') (Seq digits12 (Seq (chr CHR ''-'') digits4))),
        after = Eps \<rparr>,
      \<lparr> source = ''/('' @ bs # ''d{4}-'' @ bs # ''d{1,2}-'' @ bs # ''d{1,2})/g'',
        before = Eps,
        group = Seq digits4 (Seq (chr CHR ''-'') (Seq digits12 (Seq (chr CHR ''-'') digits12))),
        after = Eps \<rparr>]"

text \<open>
  \<^verbatim>\<open>Object.entries(this.categoryMappings)\<close> lists the entries in the order they
  were written, since no key is an array index.
\<close>

definition categoryMappings :: "(string \<times> string) list" where
  "categoryMappings =
     [(''ATM'', ''Cash''),
      (''DEPOSIT'', ''Income''),
      (''PAYROLL'', ''Salary''),
      (''GROCERY'', ''Food & Dining''),
      (''RESTAURANT'', ''Food & Dining''),
      (''GAS'', ''Transportation''),
      (''FUEL'', ''Transportation''),
      (''PHARMACY'', ''Healthcare''),
      (''MEDICAL'', ''Healthcare''),
      (''RENT'', ''Bills & Utilities''),
      (''ELECTRIC'', ''Bills & Utilities''),
      (''UTILITY'', ''Bills & Utilities''),
      (''AMAZON'', ''Shopping''),
      (''TARGET'', ''Shopping''),
      (''WALMART'', ''Shopping''),
      (''NETFLIX'', ''Entertainment''),
      (''SPOTIFY'', ''Entertainment'')]"

definition headerKeywords :: "string list" where
  "headerKeywords =
     [''DATE'', ''DESCRIPTION'', ''AMOUNT'', ''BALANCE'', ''TRANSACTION'',
      ''ACCOUNT'', ''STATEMENT'', ''PERIOD'', ''PAGE'', ''SUMMARY'']"

definition incomeKeywords :: "string list" where
  "incomeKeywords =
     [''DEPOSIT'', ''PAYROLL'', ''SALARY'', ''WAGE'', ''INCOME'', ''REFUND'',
      ''DIVIDEND'', ''INTEREST'', ''BONUS'', ''COMMISSION'']"

section \<open>The state of the processor\<close>

text \<open>
  The only state that survives a call is the \<^verbatim>\<open>lastIndex\<close> of each amount
  pattern, in the order of \<open>amountPatterns\<close>: \<^verbatim>\<open>test\<close> writes it and
  \<^verbatim>\<open>matchAll\<close> reads it. (\<^verbatim>\<open>String.prototype.match\<close> resets the \<^verbatim>\<open>lastIndex\<close>
  of a date pattern to \<open>0\<close> before and after its work, and the regular expressions
  of \<open>isBalanceLine\<close> and \<open>cleanupDescription\<close> are made anew on each call.)
\<close>

type_synonym lastIndexes = "nat list"

definition initialState :: lastIndexes where
  "initialState = [0, 0, 0, 0, 0]"

text \<open>
  \<^verbatim>\<open>patterns.some(pattern => pattern.test(line))\<close>: the patterns are tested in
  order until one matches. A successful \<^verbatim>\<open>test\<close> leaves \<^verbatim>\<open>lastIndex\<close> at the end
  of its match, a failed one at \<open>0\<close>, and the patterns after the first success are
  not touched.
\<close>

fun someTest :: "pattern list \<Rightarrow> lastIndexes \<Rightarrow> string \<Rightarrow> bool \<times> lastIndexes" where
  "someTest (p # ps) (li # lis) line =
     (case exec p line li of
        Some (i, cap, e) \<Rightarrow> (True, e # lis)
      | None \<Rightarrow> (case someTest ps lis line of (b, lis') \<Rightarrow> (b, 0 # lis')))"
| "someTest ps lis line = (False, lis)"

definition isHeaderLine :: "lastIndexes \<Rightarrow> string \<Rightarrow> bool \<times> lastIndexes" where
  "isHeaderLine st line =
     (if list_ex (includes_str (toUpperCase line)) headerKeywords then
        (case someTest amountPatterns st line of (b, st') \<Rightarrow> (\<not> b, st'))
      else (False, st))"

definition balanceRegex :: regex where
  "balanceRegex =
     Seq (Alt (litCI ''balance'') (Alt (litCI ''bal'') (litCI ''total'')))
       (Seq (Star (Atom (\<lambda>c. c = CHR '':'' \<or> isSpace c)))
         (Seq (Opt (chr CHR ''$'')) (Plus digit)))"

definition availableRegex :: regex where
  "availableRegex = Alt (litCI ''available'') (litCI ''pending'')"

definition isBalanceLine :: "string \<Rightarrow> bool" where
  "isBalanceLine line = (found balanceRegex line \<and> \<not> found availableRegex line)"

definition isIncomeDescription :: "string \<Rightarrow> bool" where
  "isIncomeDescription description = list_ex (includes_str (toUpperCase description)) incomeKeywords"

definition cleanupDescription :: "string \<Rightarrow> string" where
  "cleanupDescription description =
     (let s1 = (case rmatch (Seq (Plus digit) (Star space)) description of
                  [] \<Rightarrow> description | rest # _ \<Rightarrow> rest);
          s2 = replaceAll (Plus space) '' '' s1;
          s3 = replaceAll (Plus (chr CHR ''*'')) [] s2;
          s4 = replaceAll (Seq (chr CHR ''#'') (Plus digit)) [] s3;
          cleaned = trim s4
      in case cleaned of
           [] \<Rightarrow> []
         | c # cs \<Rightarrow> toUpperChar c # toLowerCase cs)"

definition suggestCategory :: "string \<Rightarrow> string" where
  "suggestCategory description =
     (let upperDesc = toUpperCase description
      in case find (\<lambda>(keyword, category). includes_str upperDesc keyword) categoryMappings of
           Some (keyword, category) \<Rightarrow> category
         | None \<Rightarrow>
             if includes_str upperDesc ''TRANSFER'' \<or> includes_str upperDesc ''PAYMENT''
             then ''Transfer'' else ''Other'')"

section \<open>One line\<close>

text \<open>
  The object that \<open>parseTransactionLine\<close> fills in; \<open>None\<close> is \<^verbatim>\<open>null\<close>.
\<close>

record transaction =
  date :: "string option"
  description :: "string option"
  amount :: "number option"
  type :: "string option"
  category :: "string option"
  raw_line :: string

text \<open>
  The loop over the date patterns stops at the first pattern that matches the
  line. \<^verbatim>\<open>dateMatch[1]\<close> is the second element of the array that
  \<^verbatim>\<open>line.match\<close> returns, which for a pattern with the \<^verbatim>\<open>g\<close> flag is the
  second match in the line, and \<^verbatim>\<open>undefined\<close> when the line has only one.
\<close>

fun extractDate :: "(int \<Rightarrow> int) \<Rightarrow> pattern list \<Rightarrow> string \<Rightarrow> string option" where
  "extractDate tz [] line = None"
| "extractDate tz (p # ps) line =
     (case stringMatch p line of
        [] \<Rightarrow> extractDate tz ps line
      | [m0] \<Rightarrow> normalizeDate tz None
      | m0 # m1 # ms \<Rightarrow> normalizeDate tz (Some m1))"

text \<open>
  The loop over the amount patterns stops at the first pattern with a match and
  takes the capture of its last match. The result is the amount, \<open>isDebit\<close> and
  \<open>isCredit\<close>.
\<close>

fun extractAmount :: "pattern list \<Rightarrow> lastIndexes \<Rightarrow> string \<Rightarrow> number option \<times> bool \<times> bool" where
  "extractAmount (p # ps) (li # lis) line =
     (let amountMatches = matchAll p line li
      in if amountMatches \<noteq> [] then
           (let amountStr = filter (\<lambda>c. c \<noteq> CHR '','') (last amountMatches);
                isDebit = (includes_str line ''DR'' \<or> includes_str line ''-''
                            \<or> includes_str (source p) ''-'')
            in (parseFloat amountStr, isDebit,
                \<not> isDebit \<and> (includes_str line ''CR'' \<or> includes_str line ''DEPOSIT'')))
         else extractAmount ps lis line)"
| "extractAmount ps lis line = (None, False, False)"

text \<open>
  The description is computed only for a truthy amount whose string form occurs in
  the line at an index greater than \<open>0\<close>. What is removed from it is the
  normalized date, \<^verbatim>\<open>transaction.date\<close>.
\<close>

definition extractDescription :: "string \<Rightarrow> number option \<Rightarrow> string option \<Rightarrow> string option" where
  "extractDescription line amt dt =
     (case amt of
        None \<Rightarrow> None
      | Some a \<Rightarrow>
          if truthyNumber a then
            (case lastIndexOf line (numberToString a) of
               None \<Rightarrow> None
             | Some amountIndex \<Rightarrow>
                 if 0 < amountIndex then
                   (let d0 = trim (take amountIndex line);
                        d1 = (case dt of
                                None \<Rightarrow> d0
                              | Some ds \<Rightarrow> if ds \<noteq> [] then trim (removeFirst d0 ds) else d0)
                    in Some (cleanupDescription d1))
                 else None)
          else None)"

definition parseTransactionLine ::
    "(int \<Rightarrow> int) \<Rightarrow> lastIndexes \<Rightarrow> string \<Rightarrow> transaction option \<times> lastIndexes" where
  "parseTransactionLine tz st line =
     (case isHeaderLine st line of
        (header, st') \<Rightarrow>
          if header \<or> isBalanceLine line then (None, st')
          else
            (case extractAmount amountPatterns st' line of
               (amt, isDebit, isCredit) \<Rightarrow>
                 (let dt = extractDate tz datePatterns line
                  in case (amt, extractDescription line amt dt) of
                       (Some a, Some d) \<Rightarrow>
                         if truthyNumber a \<and> d \<noteq> [] then
                           (Some \<lparr> date = dt, description = Some d, amount = Some a,
                                   type = Some (if isCredit \<or> isIncomeDescription d
                                                then ''income'' else ''expense''),
                                   category = Some (suggestCategory d),
                                   raw_line = line \<rparr>, st')
                         else (None, st')
                     | _ \<Rightarrow> (None, st'))))"

section \<open>Validation and ordering\<close>

definition truthyString :: "string option \<Rightarrow> bool" where
  "truthyString s = (case s of None \<Rightarrow> False | Some x \<Rightarrow> x \<noteq> [])"

definition truthyAmount :: "number option \<Rightarrow> bool" where
  "truthyAmount a = (case a of None \<Rightarrow> False | Some n \<Rightarrow> truthyNumber n)"

definition positiveAmount :: "number option \<Rightarrow> bool" where
  "positiveAmount a = (case a of None \<Rightarrow> False | Some n \<Rightarrow> positive n)"

text \<open>
  \<^verbatim>\<open>new Date(t.date)\<close> in the comparator: the time value of the date string, and
  \<open>0\<close> for \<^verbatim>\<open>null\<close>.
\<close>

definition dateValue :: "string option \<Rightarrow> int option" where
  "dateValue d = (case d of None \<Rightarrow> Some 0 | Some s \<Rightarrow> dateParse s)"

text \<open>
  The comparator \<^verbatim>\<open>(a, b) => new Date(a.date) - new Date(b.date)\<close>; a \<^verbatim>\<open>NaN\<close>
  result counts as \<open>0\<close> in \<^verbatim>\<open>Array.prototype.sort\<close>.
\<close>

definition compareDates :: "transaction \<Rightarrow> transaction \<Rightarrow> int" where
  "compareDates a b =
     (case (dateValue (date a), dateValue (date b)) of
        (Some x, Some y) \<Rightarrow> x - y
      | _ \<Rightarrow> 0)"

text \<open>
  \<^verbatim>\<open>Array.prototype.sort\<close> is stable (ECMAScript 2019): among the orders the
  comparator allows it returns the one that keeps equal elements in their
  original order, which is what insertion from the right computes. When a date is
  invalid the comparator is not consistent and ECMAScript leaves the order to the
  implementation; the model then still inserts from the right.
\<close>

fun insertSorted :: "('a \<Rightarrow> 'a \<Rightarrow> int) \<Rightarrow> 'a \<Rightarrow> 'a list \<Rightarrow> 'a list" where
  "insertSorted cmp x [] = [x]"
| "insertSorted cmp x (y # ys) =
     (if cmp x y \<le> 0 then x # y # ys else y # insertSorted cmp x ys)"

definition sortBy :: "('a \<Rightarrow> 'a \<Rightarrow> int) \<Rightarrow> 'a list \<Rightarrow> 'a list" where
  "sortBy cmp xs = foldr (insertSorted cmp) xs []"

definition withDefaults :: "transaction \<Rightarrow> transaction" where
  "withDefaults t =
     t \<lparr> description := (if truthyString (description t) then description t
                          else Some ''Unknown Transaction''),
         category := (if truthyString (category t) then category t else Some ''Other'') \<rparr>"

definition cleanupTransactions :: "transaction list \<Rightarrow> transaction list" where
  "cleanupTransactions transactions =
     sortBy compareDates
       (map withDefaults
         (filter (\<lambda>t. positiveAmount (amount t))
           (filter (\<lambda>t. truthyString (date t) \<and> truthyAmount (amount t)
                         \<and> truthyString (description t))
             transactions)))"

section \<open>The whole text\<close>

fun parseLines ::
    "(int \<Rightarrow> int) \<Rightarrow> lastIndexes \<Rightarrow> string list \<Rightarrow> transaction list \<times> lastIndexes" where
  "parseLines tz st [] = ([], st)"
| "parseLines tz st (line # lines) =
     (case parseTransactionLine tz st line of
        (r, st') \<Rightarrow>
          (case parseLines tz st' lines of
             (ts, st'') \<Rightarrow> ((case r of None \<Rightarrow> ts | Some t \<Rightarrow> t # ts), st'')))"

definition segmentLines :: "string \<Rightarrow> string list" where
  "segmentLines text = filter (\<lambda>line. line \<noteq> []) (map trim (split CHR 0x0A text))"

definition parseTransactionText ::
    "(int \<Rightarrow> int) \<Rightarrow> lastIndexes \<Rightarrow> string \<Rightarrow> transaction list \<times> lastIndexes" where
  "parseTransactionText tz st text =
     (case parseLines tz st (segmentLines text) of
        (ts, st') \<Rightarrow> (cleanupTransactions ts, st'))"

section \<open>The document\<close>

record summary =
  totalTransactions :: nat
  totalDebits :: nat
  totalCredits :: nat
  dateRange :: "(string \<times> string) option"

record processingResult =
  success :: bool
  transactions :: "transaction list"
  rawText :: "string option"
  summaryOf :: "summary option"
  error :: "string option"

text \<open>
  \<open>getDateRange\<close> sorts the time values of the dates and prints the first and the
  last; \<^verbatim>\<open>toISOString\<close> throws a \<^verbatim>\<open>RangeError\<close> on an invalid date, which is
  the \<open>Inl\<close> result.
\<close>

definition compareValues :: "int option \<Rightarrow> int option \<Rightarrow> int" where
  "compareValues a b = (case (a, b) of (Some x, Some y) \<Rightarrow> x - y | _ \<Rightarrow> 0)"

definition getDateRange :: "transaction list \<Rightarrow> string + (string \<times> string) option" where
  "getDateRange ts =
     (if ts = [] then Inr None
      else
        (let dates = sortBy compareValues (map (\<lambda>t. dateValue (date t)) ts)
         in case (hd dates, last dates) of
              (Some a, Some b) \<Rightarrow> Inr (Some (toISODate a, toISODate b))
            | _ \<Rightarrow> Inl ''Invalid time value''))"

text \<open>
  \<open>processPDF\<close>: reading the file and extracting its text are outside the
  program; \<open>doc\<close> is their outcome, \<open>Inl message\<close> when one of them throws and
  \<open>Inr text\<close> otherwise. Everything runs inside the \<^verbatim>\<open>try\<close> block.
\<close>

definition failure :: "string \<Rightarrow> processingResult" where
  "failure message =
     \<lparr> success = False, transactions = [], rawText = None, summaryOf = None,
       error = Some message \<rparr>"

definition processPDF ::
    "(int \<Rightarrow> int) \<Rightarrow> lastIndexes \<Rightarrow> string + string \<Rightarrow> processingResult \<times> lastIndexes" where
  "processPDF tz st doc =
     (case doc of
        Inl message \<Rightarrow> (failure message, st)
      | Inr text \<Rightarrow>
          (case parseTransactionText tz st text of
             (ts, st') \<Rightarrow>
               (case getDateRange ts of
                  Inl message \<Rightarrow> (failure message, st')
                | Inr dr \<Rightarrow>
                    (\<lparr> success = True, transactions = ts, rawText = Some text,
                       summaryOf = Some
                         \<lparr> totalTransactions = length ts,
                           totalDebits = length (filter (\<lambda>t. type t = Some ''expense'') ts),
                           totalCredits = length (filter (\<lambda>t. type t = Some ''income'') ts),
                           dateRange = dr \<rparr>,
                       error = None \<rparr>, st'))))"

section \<open>Properties of the ordering\<close>

lemma set_insertSorted: "set (insertSorted cmp x xs) = insert x (set xs)"
  by (induction xs) auto

lemma set_sortBy: "set (sortBy cmp xs) = set xs"
  unfolding sortBy_def by (induction xs) (auto simp: set_insertSorted)

text \<open>
  A list is linked when the comparator accepts every pair of neighbours. This is
  weaker than sortedness and needs no transitivity of the comparator.
\<close>

fun linked :: "('a \<Rightarrow> 'a \<Rightarrow> int) \<Rightarrow> 'a list \<Rightarrow> bool" where
  "linked cmp [] = True"
| "linked cmp [x] = True"
| "linked cmp (x # y # ys) = (cmp x y \<le> 0 \<and> linked cmp (y # ys))"

lemma linked_insertSorted:
  assumes total: "\<And>a b. cmp a b \<le> 0 \<or> cmp b a \<le> 0"
  shows "linked cmp xs \<Longrightarrow> linked cmp (insertSorted cmp x xs)"
proof (induction xs)
  case Nil
  then show ?case by simp
next
  case (Cons y ys)
  show ?case
  proof (cases ys)
    case Nil
    then show ?thesis using total [of x y] by auto
  next
    case (Cons z zs)
    with Cons.prems Cons.IH show ?thesis using total [of x y] by auto
  qed
qed

lemma linked_sortBy:
  assumes "\<And>a b. cmp a b \<le> 0 \<or> cmp b a \<le> 0"
  shows "linked cmp (sortBy cmp xs)"
  unfolding sortBy_def
  by (induction xs) (simp_all add: linked_insertSorted [OF assms])

lemma sortBy_linked: "linked cmp xs \<Longrightarrow> sortBy cmp xs = xs"
proof (induction xs rule: linked.induct)
  case (3 cmp x y ys)
  then have "sortBy cmp (y # ys) = y # ys"
    by simp
  then have "sortBy cmp (x # y # ys) = insertSorted cmp x (y # ys)"
    by (simp add: sortBy_def)
  with 3 show ?case
    by simp
qed (simp_all add: sortBy_def)

lemma compareDates_total: "compareDates a b \<le> 0 \<or> compareDates b a \<le> 0"
  by (auto simp: compareDates_def split: option.splits)

lemma sortBy_compareDates_idem:
  "sortBy compareDates (sortBy compareDates ts) = sortBy compareDates ts"
  by (rule sortBy_linked) (rule linked_sortBy, rule compareDates_total)

section \<open>Properties of validation\<close>

definition valid :: "transaction \<Rightarrow> bool" where
  "valid t = (truthyString (date t) \<and> truthyAmount (amount t) \<and> truthyString (description t)
              \<and> positiveAmount (amount t))"

lemma withDefaults_fields [simp]:
  "date (withDefaults t) = date t"
  "amount (withDefaults t) = amount t"
  "type (withDefaults t) = type t"
  "raw_line (withDefaults t) = raw_line t"
  by (simp_all add: withDefaults_def)

lemma withDefaults_description [simp]:
  "truthyString (description t) \<Longrightarrow> description (withDefaults t) = description t"
  by (simp add: withDefaults_def)

lemma withDefaults_category [simp]: "truthyString (category (withDefaults t))"
  by (simp add: withDefaults_def truthyString_def)

lemma withDefaults_idem:
  "truthyString (description t) \<Longrightarrow> withDefaults (withDefaults t) = withDefaults t"
  by (simp add: withDefaults_def truthyString_def)

lemma cleanupTransactions_member:
  "t \<in> set (cleanupTransactions ts) \<Longrightarrow> \<exists>u \<in> set ts. valid u \<and> t = withDefaults u"
  by (auto simp: cleanupTransactions_def set_sortBy valid_def)

lemma cleanupTransactions_valid:
  "t \<in> set (cleanupTransactions ts) \<Longrightarrow> valid t \<and> withDefaults t = t"
  by (auto dest!: cleanupTransactions_member simp: valid_def withDefaults_idem)

lemma filter_map_sortBy_id:
  assumes "\<And>t. t \<in> set xs \<Longrightarrow> P t \<and> Q t \<and> f t = t"
  shows "map f (filter P (filter Q (sortBy cmp xs))) = sortBy cmp xs"
proof -
  have "\<And>t. t \<in> set (sortBy cmp xs) \<Longrightarrow> P t \<and> Q t \<and> f t = t"
    using assms by (simp add: set_sortBy)
  then show ?thesis
    by (induction "sortBy cmp xs") (auto simp: map_idI)
qed

lemma positive_numberValue: "positive n \<longleftrightarrow> 0 < numberValue n"
  by (cases n) (simp_all add: positive_def numberValue_def zero_less_divide_iff)

lemma cleanupTransactions_idem:
  "cleanupTransactions (cleanupTransactions ts) = cleanupTransactions ts"
proof -
  define xs where "xs = map withDefaults
     (filter (\<lambda>t. positiveAmount (amount t))
       (filter (\<lambda>t. truthyString (date t) \<and> truthyAmount (amount t)
                     \<and> truthyString (description t)) ts))"
  have out: "cleanupTransactions ts = sortBy compareDates xs"
    by (simp add: cleanupTransactions_def xs_def)
  have "\<And>t. t \<in> set xs \<Longrightarrow>
          positiveAmount (amount t)
          \<and> (truthyString (date t) \<and> truthyAmount (amount t) \<and> truthyString (description t))
          \<and> withDefaults t = t"
    using cleanupTransactions_valid [of _ ts]
    by (simp add: out set_sortBy valid_def)
  then have "map withDefaults
     (filter (\<lambda>t. positiveAmount (amount t))
       (filter (\<lambda>t. truthyString (date t) \<and> truthyAmount (amount t)
                     \<and> truthyString (description t)) (sortBy compareDates xs)))
     = sortBy compareDates xs"
    by (rule filter_map_sortBy_id)
  then have "cleanupTransactions (sortBy compareDates xs)
     = sortBy compareDates (sortBy compareDates xs)"
    by (simp add: cleanupTransactions_def)
  then show ?thesis
    by (simp add: out sortBy_compareDates_idem)
qed

lemma cleanupTransactions_positive:
  "list_all (\<lambda>t. \<exists>n. amount t = Some n \<and> 0 < numberValue n) (cleanupTransactions ts)"
proof -
  have "\<exists>n. amount t = Some n \<and> 0 < numberValue n" if "t \<in> set (cleanupTransactions ts)" for t
    using cleanupTransactions_valid [OF that]
    by (auto simp: valid_def positiveAmount_def positive_numberValue split: option.splits)
  then show ?thesis
    by (simp add: list_all_iff)
qed

text \<open>
  C5. Every transaction that validation lets through has an amount strictly greater
  than zero, for every sequence of candidates and so for the result of the pipeline on
  every text; and validating a validated sequence again returns it unchanged.
\<close>

theorem cleanupTransactions_positive_and_idempotent:
  "list_all (\<lambda>t. \<exists>n. amount t = Some n \<and> 0 < numberValue n) (cleanupTransactions ts)
   \<and> list_all (\<lambda>t. \<exists>n. amount t = Some n \<and> 0 < numberValue n)
        (fst (parseTransactionText tz st text))
   \<and> cleanupTransactions (cleanupTransactions ts) = cleanupTransactions ts"
  by (simp add: cleanupTransactions_positive cleanupTransactions_idem
        parseTransactionText_def split: prod.splits)

section \<open>Properties of one line\<close>

text \<open>
  C10. When the string form of the recovered amount occurs in the line at index 0
  and nowhere later, \<open>parseTransactionLine\<close> returns no transaction, whatever date and
  amount were recovered: the description is not computed.
\<close>

theorem amount_at_line_start_no_transaction:
  assumes "isHeaderLine st line = (header, st')"
    and "extractAmount amountPatterns st' line = (Some a, isDebit, isCredit)"
    and "lastIndexOf line (numberToString a) = Some 0"
  shows "fst (parseTransactionLine tz st line) = None"
  using assms
  by (simp add: parseTransactionLine_def extractDescription_def Let_def)

theorem amount_at_line_start_witness:
  "isHeaderLine initialState ''45.67- 01/15/2024 01/16/2024'' = (False, initialState)
   \<and> extractAmount amountPatterns initialState ''45.67- 01/15/2024 01/16/2024''
       = (Some (Decimal 4567 2), True, False)
   \<and> positive (Decimal 4567 2)
   \<and> extractDate utc datePatterns ''45.67- 01/15/2024 01/16/2024'' = Some ''2024-01-16''
   \<and> lastIndexOf ''45.67- 01/15/2024 01/16/2024'' (numberToString (Decimal 4567 2)) = Some 0
   \<and> fst (parseTransactionLine utc initialState ''45.67- 01/15/2024 01/16/2024'') = None"
proof -
  have h1: "isHeaderLine initialState ''45.67- 01/15/2024 01/16/2024'' = (False, initialState)"
    by code_simp
  have h2: "extractAmount amountPatterns initialState ''45.67- 01/15/2024 01/16/2024''
              = (Some (Decimal 4567 2), True, False)"
    by code_simp
  have h3: "lastIndexOf ''45.67- 01/15/2024 01/16/2024'' (numberToString (Decimal 4567 2)) = Some 0"
    by code_simp
  have h4: "extractDate utc datePatterns ''45.67- 01/15/2024 01/16/2024'' = Some ''2024-01-16''"
    by code_simp
  have h5: "positive (Decimal 4567 2)"
    by (simp add: positive_def)
  from amount_at_line_start_no_transaction [OF h1 h2 h3] h1 h2 h3 h4 h5
  show ?thesis
    by blast
qed

section \<open>Properties of the document\<close>

text \<open>
  C7. When reading the file or extracting its text throws, the result has
  \<open>success = False\<close>, carries the message of the error and has no transactions. More
  generally, every result that is not a success has no transactions.
\<close>

theorem processPDF_document_failure:
  "success (fst (processPDF tz st (Inl message))) = False
   \<and> error (fst (processPDF tz st (Inl message))) = Some message
   \<and> transactions (fst (processPDF tz st (Inl message))) = []
   \<and> (success (fst (processPDF tz st doc)) \<or> transactions (fst (processPDF tz st doc)) = [])"
  by (simp add: processPDF_def failure_def split: sum.splits prod.splits)

section \<open>The type of a transaction and the counts of the summary\<close>

definition typed :: "transaction \<Rightarrow> bool" where
  "typed t = (type t = Some ''income'' \<or> type t = Some ''expense'')"

lemma parseTransactionLine_typed:
  "parseTransactionLine tz st line = (Some t, st') \<Longrightarrow> typed t"
  by (auto simp: parseTransactionLine_def Let_def typed_def
      split: prod.splits if_splits option.splits)

lemma parseLines_typed: "list_all typed (fst (parseLines tz st ls))"
proof (induction ls arbitrary: st)
  case Nil
  then show ?case by simp
next
  case (Cons l ls)
  obtain r st1 where r: "parseTransactionLine tz st l = (r, st1)"
    by (cases "parseTransactionLine tz st l")
  obtain ts st2 where ts: "parseLines tz st1 ls = (ts, st2)"
    by (cases "parseLines tz st1 ls")
  from Cons.IH [of st1] ts have "list_all typed ts"
    by simp
  with r ts show ?case
    by (cases r) (auto dest: parseTransactionLine_typed)
qed

lemma cleanupTransactions_typed:
  "list_all typed ts \<Longrightarrow> list_all typed (cleanupTransactions ts)"
  by (auto simp: list_all_iff typed_def dest!: cleanupTransactions_member)

lemma parseTransactionText_typed: "list_all typed (fst (parseTransactionText tz st text))"
  using parseLines_typed [of tz st "segmentLines text"]
  by (auto simp: parseTransactionText_def split: prod.splits intro: cleanupTransactions_typed)

lemma typed_counts:
  "list_all typed ts \<Longrightarrow>
   length (filter (\<lambda>t. type t = Some ''expense'') ts)
     + length (filter (\<lambda>t. type t = Some ''income'') ts) = length ts"
  by (induction ts) (auto simp: typed_def)

text \<open>
  C9. In every successful result of \<open>processPDF\<close> each transaction has the type
  \<open>income\<close> or the type \<open>expense\<close>, and the two counts of the summary add up to the
  total count.
\<close>

theorem successful_result_typed_and_counted:
  assumes "processPDF tz st doc = (r, st')"
    and "success r"
  shows "list_all (\<lambda>t. type t = Some ''income'' \<or> type t = Some ''expense'') (transactions r)
         \<and> (\<exists>s. summaryOf r = Some s
                \<and> totalDebits s + totalCredits s = totalTransactions s
                \<and> totalTransactions s = length (transactions r))"
proof (cases doc)
  case (Inl message)
  with assms show ?thesis
    by (auto simp: processPDF_def failure_def)
next
  case (Inr content)
  obtain ts st1 where ts: "parseTransactionText tz st content = (ts, st1)"
    by (cases "parseTransactionText tz st content")
  from parseTransactionText_typed [of tz st content] ts have typed: "list_all typed ts"
    by simp
  then have all: "list_all (\<lambda>t. type t = Some ''income'' \<or> type t = Some ''expense'') ts"
    by (simp add: list_all_iff typed_def)
  from assms Inr ts typed_counts [OF typed] all show ?thesis
    by (auto simp: processPDF_def failure_def split: sum.splits)
qed

theorem successful_result_witness:
  "success (fst (processPDF utc initialState
      (Inr (''01/15/2024 01/16/2024 COFFEE $5.00'' @ [CHR 0x0A]
            @ ''02/01/2024 02/02/2024 PAYROLL DEPOSIT $2500.00 CR''))))
   \<and> map type (transactions (fst (processPDF utc initialState
      (Inr (''01/15/2024 01/16/2024 COFFEE $5.00'' @ [CHR 0x0A]
            @ ''02/01/2024 02/02/2024 PAYROLL DEPOSIT $2500.00 CR'')))))
       = [Some ''expense'', Some ''income'']
   \<and> map_option (\<lambda>s. (totalDebits s, totalCredits s, totalTransactions s))
        (summaryOf (fst (processPDF utc initialState
          (Inr (''01/15/2024 01/16/2024 COFFEE $5.00'' @ [CHR 0x0A]
                @ ''02/01/2024 02/02/2024 PAYROLL DEPOSIT $2500.00 CR'')))))
       = Some (1, 1, 2)"
proof -
  have run: "processPDF utc initialState
      (Inr (''01/15/2024 01/16/2024 COFFEE $5.00'' @ [CHR 0x0A]
            @ ''02/01/2024 02/02/2024 PAYROLL DEPOSIT $2500.00 CR''))
    = (\<lparr> success = True,
         transactions =
           [\<lparr> date = Some ''2024-01-16'',
               description = Some ''/15/2024 01/16/2024 coffee $'',
               amount = Some (Decimal 5 0), type = Some ''expense'',
               category = Some ''Other'',
               raw_line = ''01/15/2024 01/16/2024 COFFEE $5.00'' \<rparr>,
            \<lparr> date = Some ''2024-02-02'',
               description = Some ''/01/2024 02/02/2024 payroll deposit $'',
               amount = Some (Decimal 2500 0), type = Some ''income'',
               category = Some ''Income'',
               raw_line = ''02/01/2024 02/02/2024 PAYROLL DEPOSIT $2500.00 CR'' \<rparr>],
         rawText = Some (''01/15/2024 01/16/2024 COFFEE $5.00'' @ [CHR 0x0A]
            @ ''02/01/2024 02/02/2024 PAYROLL DEPOSIT $2500.00 CR''),
         summaryOf = Some \<lparr> totalTransactions = 2, totalDebits = 1, totalCredits = 1,
                               dateRange = Some (''2024-01-16'', ''2024-02-02'') \<rparr>,
         error = None \<rparr>,
       initialState)"
    by code_simp
  have ok: "success (fst (processPDF utc initialState
      (Inr (''01/15/2024 01/16/2024 COFFEE $5.00'' @ [CHR 0x0A]
            @ ''02/01/2024 02/02/2024 PAYROLL DEPOSIT $2500.00 CR''))))"
    unfolding run by simp
  from successful_result_typed_and_counted [OF surjective_pairing ok]
  show ?thesis
    unfolding run by simp
qed

section \<open>The processor on concrete lines\<close>

text \<open>
  The examples run in a process whose local time is UTC and, unless a state is
  given, on a processor that has not been used before.
\<close>

text \<open>
  C1. \<open>normalizeDate\<close> does not reject a token whose month or day is out of range:
  \<^verbatim>\<open>new Date(2024, 12, 45)\<close> carries month 13 into January 2025 and day 45 into
  February, so the token \<^verbatim>\<open>13/45/2024\<close> becomes \<^verbatim>\<open>2025-02-14\<close>, and a line that
  carries it as its second date is kept by the pipeline under that date.
\<close>

theorem normalizeDate_out_of_range_rolls_over:
  "normalizeDate utc (Some ''13/45/2024'') = Some ''2025-02-14''
   \<and> fst (parseTransactionText utc initialState ''01/01/2024 13/45/2024 COFFEE $5.00'')
       = [\<lparr> date = Some ''2025-02-14'',
            description = Some ''/01/2024 13/45/2024 coffee $'',
            amount = Some (Decimal 5 0), type = Some ''expense'',
            category = Some ''Other'',
            raw_line = ''01/01/2024 13/45/2024 COFFEE $5.00'' \<rparr>]"
proof -
  have "normalizeDate utc (Some ''13/45/2024'') = Some ''2025-02-14''"
    by code_simp
  moreover
  have "fst (parseTransactionText utc initialState ''01/01/2024 13/45/2024 COFFEE $5.00'')
       = [\<lparr> date = Some ''2025-02-14'',
            description = Some ''/01/2024 13/45/2024 coffee $'',
            amount = Some (Decimal 5 0), type = Some ''expense'',
            category = Some ''Other'',
            raw_line = ''01/01/2024 13/45/2024 COFFEE $5.00'' \<rparr>]"
    by code_simp
  ultimately show ?thesis
    by (rule conjI)
qed

text \<open>
  C2. The outcome of a line depends on the lines processed before it, and a text
  processed twice by the same processor gives two different results.
  \<open>isHeaderLine\<close> calls \<^verbatim>\<open>test\<close> on the amount patterns, which carry the
  \<^verbatim>\<open>g\<close> flag, whenever the line holds a header keyword; the \<^verbatim>\<open>lastIndex\<close> it leaves
  behind is where \<^verbatim>\<open>matchAll\<close> starts on this and on every later line.
\<close>

theorem line_outcome_depends_on_earlier_lines:
  "fst (parseTransactionLine utc initialState ''COFFEE SHOP $5.00'')
     = Some \<lparr> date = None, description = Some ''Coffee shop $'',
              amount = Some (Decimal 5 0), type = Some ''expense'',
              category = Some ''Other'', raw_line = ''COFFEE SHOP $5.00'' \<rparr>
   \<and> snd (parseTransactionLine utc initialState ''ACCOUNT MAINTENANCE FEE $12.00'')
       = [30, 0, 0, 0, 0]
   \<and> fst (parseTransactionLine utc [30, 0, 0, 0, 0] ''COFFEE SHOP $5.00'') = None
   \<and> parseTransactionText utc initialState ''01/15/2024 01/16/2024 ACCOUNT FEE $5.00 $7.00''
       = ([\<lparr> date = Some ''2024-01-16'',
             description = Some ''/15/2024 01/16/2024 account fee $5.00 $'',
             amount = Some (Decimal 7 0), type = Some ''expense'',
             category = Some ''Other'',
             raw_line = ''01/15/2024 01/16/2024 ACCOUNT FEE $5.00 $7.00'' \<rparr>],
          [39, 0, 0, 0, 0])
   \<and> parseTransactionText utc [39, 0, 0, 0, 0] ''01/15/2024 01/16/2024 ACCOUNT FEE $5.00 $7.00''
       = ([], [45, 0, 0, 0, 0])"
proof -
  have "fst (parseTransactionLine utc initialState ''COFFEE SHOP $5.00'')
     = Some \<lparr> date = None, description = Some ''Coffee shop $'',
              amount = Some (Decimal 5 0), type = Some ''expense'',
              category = Some ''Other'', raw_line = ''COFFEE SHOP $5.00'' \<rparr>"
    by code_simp
  moreover
  have "snd (parseTransactionLine utc initialState ''ACCOUNT MAINTENANCE FEE $12.00'')
       = [30, 0, 0, 0, 0]"
    by code_simp
  moreover
  have "fst (parseTransactionLine utc [30, 0, 0, 0, 0] ''COFFEE SHOP $5.00'') = None"
    by code_simp
  moreover
  have "parseTransactionText utc initialState ''01/15/2024 01/16/2024 ACCOUNT FEE $5.00 $7.00''
       = ([\<lparr> date = Some ''2024-01-16'',
             description = Some ''/15/2024 01/16/2024 account fee $5.00 $'',
             amount = Some (Decimal 7 0), type = Some ''expense'',
             category = Some ''Other'',
             raw_line = ''01/15/2024 01/16/2024 ACCOUNT FEE $5.00 $7.00'' \<rparr>],
          [39, 0, 0, 0, 0])"
    by code_simp
  moreover
  have "parseTransactionText utc [39, 0, 0, 0, 0] ''01/15/2024 01/16/2024 ACCOUNT FEE $5.00 $7.00''
       = ([], [45, 0, 0, 0, 0])"
    by code_simp
  ultimately show ?thesis
    by blast
qed

text \<open>
  C3, as the claim states it: the category of the line is not \<open>Salary\<close>.
\<close>

theorem payroll_deposit_category_counterexample:
  "map_option category
     (fst (parseTransactionLine utc initialState ''02/01/2024 PAYROLL DEPOSIT $2500.00 CR''))
   \<noteq> Some (Some ''Salary'')"
  by code_simp

text \<open>
  C3, amended. On an unused processor \<open>parseTransactionLine\<close> turns the line
  \<^verbatim>\<open>02/01/2024 PAYROLL DEPOSIT $2500.00 CR\<close> into one candidate of type \<open>income\<close>,
  category \<open>Income\<close> and amount 2500: \<open>DEPOSIT\<close> stands before \<open>PAYROLL\<close> in the
  category table and the first keyword found decides.
\<close>

theorem payroll_deposit_line:
  "map_option (\<lambda>t. (type t, category t, map_option numberValue (amount t)))
     (fst (parseTransactionLine tz initialState ''02/01/2024 PAYROLL DEPOSIT $2500.00 CR''))
   = Some (Some ''income'', Some ''Income'', Some 2500)"
proof -
  have "fst (parseTransactionLine tz initialState ''02/01/2024 PAYROLL DEPOSIT $2500.00 CR'')
     = Some \<lparr> date = None, description = Some ''/01/2024 payroll deposit $'',
              amount = Some (Decimal 2500 0), type = Some ''income'',
              category = Some ''Income'',
              raw_line = ''02/01/2024 PAYROLL DEPOSIT $2500.00 CR'' \<rparr>"
    by code_simp
  then show ?thesis
    by (simp add: numberValue_def)
qed

text \<open>
  C4. For the line \<^verbatim>\<open>01/15/2024 WALMART PURCHASE $45.67\<close> the candidate has the
  category \<open>Shopping\<close> and the type \<open>expense\<close>, but its date is \<^verbatim>\<open>null\<close>
  (\<^verbatim>\<open>dateMatch[1]\<close> is \<^verbatim>\<open>undefined\<close> when the line holds one date), its description
  is \<^verbatim>\<open>/15/2024 walmart purchase $\<close>, and validation drops it: the pipeline returns
  no transaction. This holds in every time zone.
\<close>

theorem walmart_line_has_no_date:
  "fst (parseTransactionLine tz initialState ''01/15/2024 WALMART PURCHASE $45.67'')
     = Some \<lparr> date = None, description = Some ''/15/2024 walmart purchase $'',
              amount = Some (Decimal 4567 2), type = Some ''expense'',
              category = Some ''Shopping'',
              raw_line = ''01/15/2024 WALMART PURCHASE $45.67'' \<rparr>
   \<and> fst (parseTransactionText tz initialState ''01/15/2024 WALMART PURCHASE $45.67'') = []"
proof -
  have "fst (parseTransactionLine tz initialState ''01/15/2024 WALMART PURCHASE $45.67'')
     = Some \<lparr> date = None, description = Some ''/15/2024 walmart purchase $'',
              amount = Some (Decimal 4567 2), type = Some ''expense'',
              category = Some ''Shopping'',
              raw_line = ''01/15/2024 WALMART PURCHASE $45.67'' \<rparr>"
    by code_simp
  moreover
  have "fst (parseTransactionText tz initialState ''01/15/2024 WALMART PURCHASE $45.67'') = []"
    by code_simp
  ultimately show ?thesis
    by (rule conjI)
qed

text \<open>
  C8. The amount patterns accept one comma in a numeral
  (\<^verbatim>\<open>\d+,?\d*\.?\d*\<close>) while \<^verbatim>\<open>amountStr.replace(/,/g, '')\<close> removes every comma.
  A token with one thousands separator is read whole, \<^verbatim>\<open>$1,234.56\<close> parses to
  1234.56; a token with two is cut at the second, \<^verbatim>\<open>$1,234,567.89\<close> parses to 1234
  and not to 1234567.89.
\<close>

theorem two_separators_cut_at_second:
  "fst (extractAmount amountPatterns initialState ''$1,234.56'') = Some (Decimal 123456 2)
   \<and> fst (extractAmount amountPatterns initialState ''$1,234,567.89'') = Some (Decimal 1234 0)
   \<and> parseFloat ''1234567.89'' = Some (Decimal 123456789 2)"
proof -
  have "fst (extractAmount amountPatterns initialState ''$1,234.56'') = Some (Decimal 123456 2)"
    by code_simp
  moreover
  have "fst (extractAmount amountPatterns initialState ''$1,234,567.89'') = Some (Decimal 1234 0)"
    by code_simp
  moreover
  have "parseFloat ''1234567.89'' = Some (Decimal 123456789 2)"
    by code_simp
  ultimately show ?thesis
    by simp
qed

section \<open>Decimal digits\<close>

lemma small_cases: "0 \<le> d \<Longrightarrow> d < 10 \<Longrightarrow>
    d = 0 \<or> d = 1 \<or> d = 2 \<or> d = 3 \<or> d = 4 \<or> d = 5 \<or> d = 6 \<or> d = 7 \<or> d = 8 \<or> d = (9::int)"
  by arith

lemma digitChar_isDigit: "0 \<le> d \<Longrightarrow> d < 10 \<Longrightarrow> isDigit (digitChar d)"
  by (drule (1) small_cases) (auto simp: digitChar_def isDigit_def)

lemma digitVal_digitChar: "0 \<le> d \<Longrightarrow> d < 10 \<Longrightarrow> digitVal (digitChar d) = d"
  by (drule (1) small_cases) (auto simp: digitChar_def digitVal_def)

lemma valueOfDigits_snoc: "valueOfDigits (s @ [c]) = 10 * valueOfDigits s + digitVal c"
  by (simp add: valueOfDigits_def)

lemma digitsOf_value: "0 \<le> n \<Longrightarrow> valueOfDigits (digitsOf n) = n"
proof (induction n rule: digitsOf.induct)
  case (1 n)
  show ?case
  proof (cases "n < 10")
    case True
    with "1.prems" show ?thesis
      by (simp add: digitsOf.simps [of n] valueOfDigits_def digitVal_digitChar)
  next
    case False
    with 1 have "valueOfDigits (digitsOf (n div 10)) = n div 10"
      by simp
    with False show ?thesis
      by (simp add: digitsOf.simps [of n] valueOfDigits_snoc digitVal_digitChar)
  qed
qed

lemma digitsOf_digits: "0 \<le> n \<Longrightarrow> list_all isDigit (digitsOf n)"
proof (induction n rule: digitsOf.induct)
  case (1 n)
  show ?case
  proof (cases "n < 10")
    case True
    with "1.prems" show ?thesis
      by (simp add: digitsOf.simps [of n] digitChar_isDigit)
  next
    case False
    with 1 have "list_all isDigit (digitsOf (n div 10))"
      by simp
    with False show ?thesis
      by (simp add: digitsOf.simps [of n] digitChar_isDigit)
  qed
qed

lemma digitsOf_length: "0 \<le> n \<Longrightarrow> n < 10 ^ k \<Longrightarrow> 0 < k \<Longrightarrow> length (digitsOf n) \<le> k"
proof (induction n arbitrary: k rule: digitsOf.induct)
  case (1 n)
  show ?case
  proof (cases "n < 10")
    case True
    with "1.prems" show ?thesis
      by (simp add: digitsOf.simps [of n])
  next
    case False
    with "1.prems" obtain j where k: "k = Suc j"
      by (cases k) auto
    with False "1.prems" have "0 < j"
      by (cases j) auto
    moreover from k "1.prems" have "n div 10 < 10 ^ j"
      by simp
    ultimately have "length (digitsOf (n div 10)) \<le> j"
      using "1.IH" [of j] False "1.prems" by simp
    with False k show ?thesis
      by (simp add: digitsOf.simps [of n])
  qed
qed

lemma valueOfDigits_zeros: "valueOfDigits (replicate j CHR ''0'' @ s) = valueOfDigits s"
  by (induction j) (simp_all add: valueOfDigits_def digitVal_def)

lemma isDigit_zero: "isDigit CHR ''0''"
  by (simp add: isDigit_def)

lemma padStart_digits: "list_all isDigit s \<Longrightarrow> list_all isDigit (padStart k s)"
  by (auto simp: padStart_def list_all_iff isDigit_zero)

lemma padStart_length: "length s \<le> k \<Longrightarrow> length (padStart k s) = k"
  by (simp add: padStart_def)

lemma padStart_value: "valueOfDigits (padStart k s) = valueOfDigits s"
  by (simp add: padStart_def valueOfDigits_zeros)

lemma parseTwoDigits_padStart:
  assumes "0 \<le> n" "n < 100"
  shows "parseTwoDigits (padStart 2 (digitsOf n)) = Some n"
proof -
  from assms have "length (digitsOf n) \<le> 2"
    by (intro digitsOf_length) simp_all
  with assms show ?thesis
    by (simp add: parseTwoDigits_def padStart_length padStart_digits digitsOf_digits
        padStart_value digitsOf_value)
qed

lemma isDigit_not_sign: "isDigit c \<Longrightarrow> c \<noteq> CHR ''+'' \<and> c \<noteq> CHR ''-''"
  by (auto simp: isDigit_def)

lemma parseYear_yearString:
  assumes "\<bar>y\<bar> \<le> 999999"
  shows "parseYear (yearString y) = Some y"
proof (cases "0 \<le> y \<and> y \<le> 9999")
  case True
  define s where "s = padStart 4 (digitsOf y)"
  from True have len: "length (digitsOf y) \<le> 4"
    by (intro digitsOf_length) simp_all
  then have l4: "length s = 4"
    by (simp add: s_def padStart_length)
  from True have ds: "list_all isDigit s"
    by (simp add: s_def padStart_digits digitsOf_digits)
  from l4 obtain c cs where cs: "s = c # cs"
    by (cases s) auto
  with ds have "c \<noteq> CHR ''+'' \<and> c \<noteq> CHR ''-''"
    by (simp add: isDigit_not_sign)
  with cs l4 ds True have "parseYear s = Some (valueOfDigits s)"
    by (simp add: parseYear_def)
  with True show ?thesis
    by (simp add: yearString_def s_def padStart_value digitsOf_value)
next
  case False
  define cs where "cs = padStart 6 (digitsOf \<bar>y\<bar>)"
  from assms have "length (digitsOf \<bar>y\<bar>) \<le> 6"
    by (intro digitsOf_length) simp_all
  then have l6: "length cs = 6"
    by (simp add: cs_def padStart_length)
  have ds: "list_all isDigit cs"
    by (simp add: cs_def padStart_digits digitsOf_digits)
  have v: "valueOfDigits cs = \<bar>y\<bar>"
    by (simp add: cs_def padStart_value digitsOf_value)
  from False l6 ds v show ?thesis
    by (auto simp: yearString_def parseYear_def cs_def [symmetric])
qed

lemma dateParse_parts:
  assumes "length mm = 2" "length dd = 2"
  shows "dateParse (ys @ ''-'' @ mm @ ''-'' @ dd) =
     (case (parseYear ys, parseTwoDigits mm, parseTwoDigits dd) of
        (Some y, Some m, Some d) \<Rightarrow>
          if 1 \<le> m \<and> m \<le> 12 \<and> 1 \<le> d \<and> d \<le> 31
          then TimeClip (MakeDay y (m - 1) d * msPerDay)
          else None
      | _ \<Rightarrow> None)"
proof -
  define s where "s = ys @ ''-'' @ mm @ ''-'' @ dd"
  have n: "length s = length ys + 6"
    using assms by (simp add: s_def)
  have f1: "s ! (length s - 3) = CHR ''-''"
    using assms by (simp add: s_def nth_append)
  have f2: "s ! (length s - 6) = CHR ''-''"
    using assms by (simp add: s_def nth_append)
  have f3: "take (length s - 6) s = ys"
    using assms by (simp add: s_def)
  have f4: "take 2 (drop (length s - 5) s) = mm"
    using assms by (simp add: s_def)
  have f5: "drop (length s - 2) s = dd"
    using assms by (simp add: s_def)
  have f6: "\<not> length s < 6"
    using n by simp
  have "dateParse s =
     (case (parseYear ys, parseTwoDigits mm, parseTwoDigits dd) of
        (Some y, Some m, Some d) \<Rightarrow>
          if 1 \<le> m \<and> m \<le> 12 \<and> 1 \<le> d \<and> d \<le> 31
          then TimeClip (MakeDay y (m - 1) d * msPerDay)
          else None
      | _ \<Rightarrow> None)"
    unfolding dateParse_def Let_def f1 f2 f3 f4 f5 using f6 by simp
  then show ?thesis
    by (simp only: s_def)
qed

section \<open>The calendar\<close>

lemma div_bounds: "0 < (b::int) \<Longrightarrow> b * (a div b) \<le> a \<and> a < b * (a div b) + b"
  using mult_div_mod_eq [of b a] pos_mod_sign [of b a] pos_mod_bound [of b a]
  by linarith

lemma DayFromYear_bounds:
  "146097 * (y - 1970) - 506 \<le> 400 * DayFromYear y"
  "400 * DayFromYear y \<le> 146097 * (y - 1970) + 589"
proof -
  define a where "a = (y - 1969) div 4"
  define b where "b = (y - 1901) div 100"
  define c where "c = (y - 1601) div 400"
  have a: "4 * a \<le> y - 1969" "y - 1972 \<le> 4 * a"
    using div_bounds [of 4 "y - 1969"] by (simp_all add: a_def)
  have b: "100 * b \<le> y - 1901" "y - 2000 \<le> 100 * b"
    using div_bounds [of 100 "y - 1901"] by (simp_all add: b_def)
  have c: "400 * c \<le> y - 1601" "y - 2000 \<le> 400 * c"
    using div_bounds [of 400 "y - 1601"] by (simp_all add: c_def)
  have d: "DayFromYear y = 365 * (y - 1970) + a - b + c"
    by (simp add: DayFromYear_def a_def b_def c_def)
  show "146097 * (y - 1970) - 506 \<le> 400 * DayFromYear y"
    unfolding d using a b c by (simp add: algebra_simps)
  show "400 * DayFromYear y \<le> 146097 * (y - 1970) + 589"
    unfolding d using a b c by (simp add: algebra_simps)
qed

lemma div_succ:
  assumes "0 < (b::int)"
  shows "(x + 1) div b = x div b + (if (x + 1) mod b = 0 then 1 else 0)"
proof -
  have x: "x = b * (x div b) + x mod b" "0 \<le> x mod b" "x mod b < b"
    using assms by simp_all
  show ?thesis
  proof (cases "x mod b + 1 = b")
    case True
    have "b * (x div b + 1) = b * (x div b) + b"
      by (simp add: algebra_simps)
    with x True have e: "x + 1 = b * (x div b + 1) + 0"
      by linarith
    from int_div_pos_eq [OF e] int_mod_pos_eq [OF e] assms show ?thesis
      by simp
  next
    case False
    with x have e: "x + 1 = b * (x div b) + (x mod b + 1)" and r: "0 \<le> x mod b + 1" "x mod b + 1 < b"
      by simp_all
    from int_div_pos_eq [OF e r] int_mod_pos_eq [OF e r] x(2) show ?thesis
      by simp
  qed
qed

lemma DayFromYear_step:
  "DayFromYear (y + 1) = DayFromYear y + 365 + (if InLeapYear y then 1 else 0)"
proof -
  have m4: "(y - 1968) mod 4 = y mod 4"
    using mod_mult_self2 [of y 4 "- 492"] by simp
  have m100: "(y - 1900) mod 100 = y mod 100"
    using mod_mult_self2 [of y 100 "- 19"] by simp
  have m400: "(y - 1600) mod 400 = y mod 400"
    using mod_mult_self2 [of y 400 "- 4"] by simp
  have a: "(y - 1968) div 4 = (y - 1969) div 4 + (if y mod 4 = 0 then 1 else 0)"
    using div_succ [of 4 "y - 1969"] m4 by simp
  have b: "(y - 1900) div 100 = (y - 1901) div 100 + (if y mod 100 = 0 then 1 else 0)"
    using div_succ [of 100 "y - 1901"] m100 by simp
  have c: "(y - 1600) div 400 = (y - 1601) div 400 + (if y mod 400 = 0 then 1 else 0)"
    using div_succ [of 400 "y - 1601"] m400 by simp
  have "100 dvd y" if "400 dvd y"
    using that by (rule dvd_trans [rotated]) simp
  moreover have "4 dvd y" if "100 dvd y"
    using that by (rule dvd_trans [rotated]) simp
  ultimately have d: "y mod 400 = 0 \<Longrightarrow> y mod 100 = 0" "y mod 100 = 0 \<Longrightarrow> y mod 4 = 0"
    by (simp_all add: mod_eq_0_iff_dvd)
  show ?thesis
    using d by (auto simp: DayFromYear_def InLeapYear_def a b c)
qed

lemma YearFromDay_bounds:
  "DayFromYear (YearFromDay d) \<le> d" "d < DayFromYear (YearFromDay d + 1)"
proof -
  define q where "q = (400 * d) div 146097"
  have q: "146097 * q \<le> 400 * d" "400 * d < 146097 * q + 146097"
    using div_bounds [of 146097 "400 * d"] by (simp_all add: q_def)
  have lo: "400 * DayFromYear (1970 + q - 1) \<le> 146097 * (q - 1) + 589"
    using DayFromYear_bounds(2) [of "1970 + q - 1"] by simp
  have hi: "146097 * (q + 2) - 506 \<le> 400 * DayFromYear (1970 + q + 1 + 1)"
    using DayFromYear_bounds(1) [of "1970 + q + 1 + 1"] by simp
  show "DayFromYear (YearFromDay d) \<le> d"
    unfolding YearFromDay_def Let_def q_def [symmetric] using q lo by auto
  show "d < DayFromYear (YearFromDay d + 1)"
    unfolding YearFromDay_def Let_def q_def [symmetric] using q hi by auto
qed

lemma YearFromDay_range:
  assumes "\<bar>d\<bar> \<le> 100000000"
  shows "\<bar>YearFromDay d\<bar> \<le> 999999"
proof -
  define q where "q = (400 * d) div 146097"
  have "146097 * q \<le> 400 * d" "400 * d < 146097 * q + 146097"
    using div_bounds [of 146097 "400 * d"] by (simp_all add: q_def)
  with assms have "\<bar>q\<bar> \<le> 300000"
    by linarith
  then show ?thesis
    unfolding YearFromDay_def Let_def q_def [symmetric] by auto
qed

lemma monthStart_values:
  "monthStart 0 l = 0" "monthStart 1 l = 31"
  "monthStart 2 l = 59 + (if l then 1 else 0)" "monthStart 3 l = 90 + (if l then 1 else 0)"
  "monthStart 4 l = 120 + (if l then 1 else 0)" "monthStart 5 l = 151 + (if l then 1 else 0)"
  "monthStart 6 l = 181 + (if l then 1 else 0)" "monthStart 7 l = 212 + (if l then 1 else 0)"
  "monthStart 8 l = 243 + (if l then 1 else 0)" "monthStart 9 l = 273 + (if l then 1 else 0)"
  "monthStart 10 l = 304 + (if l then 1 else 0)" "monthStart 11 l = 334 + (if l then 1 else 0)"
  by (simp_all add: monthStart_def)

lemma month_range: "0 \<le> MonthFromDay dwy leap \<and> MonthFromDay dwy leap \<le> 11"
  by (simp add: MonthFromDay_def Let_def)

lemma date_range:
  assumes "0 \<le> dwy" "dwy < 365 + (if leap then 1 else 0)"
  shows "1 \<le> DateFromDay dwy leap \<and> DateFromDay dwy leap \<le> 31"
  using assms
  by (cases leap) (simp_all add: MonthFromDay_def DateFromDay_def Let_def monthStart_values)

lemma month_date_ranges:
  assumes "0 \<le> dwy" "dwy < 365 + (if leap then 1 else 0)"
  shows "0 \<le> MonthFromDay dwy leap" "MonthFromDay dwy leap \<le> 11"
    "1 \<le> DateFromDay dwy leap" "DateFromDay dwy leap \<le> 31"
  using month_range [of dwy leap] date_range [OF assms] by simp_all

lemma MakeDay_in_year:
  "0 \<le> mn \<Longrightarrow> mn \<le> 11 \<Longrightarrow>
   MakeDay y mn dt = DayFromYear y + monthStart mn (InLeapYear y) + dt - 1"
  by (simp add: MakeDay_def Let_def)

lemma dateParse_toISODate:
  assumes "\<bar>t\<bar> \<le> 8640000000000000"
  shows "dateParse (toISODate t) = Some (t div msPerDay * msPerDay)"
proof -
  define day where "day = t div msPerDay"
  define y where "y = YearFromDay day"
  define dwy where "dwy = day - DayFromYear y"
  define leap where "leap = InLeapYear y"
  define m where "m = MonthFromDay dwy leap"
  define dt where "dt = DateFromDay dwy leap"
  have day: "\<bar>day\<bar> \<le> 100000000"
    using assms unfolding day_def msPerDay_def by arith
  have "0 \<le> dwy" "dwy < 365 + (if leap then 1 else 0)"
    using YearFromDay_bounds [of day] DayFromYear_step [of y]
    by (simp_all add: dwy_def y_def leap_def)
  from month_date_ranges [OF this]
  have r: "0 \<le> m" "m \<le> 11" "1 \<le> dt" "dt \<le> 31"
    by (simp_all add: m_def dt_def)
  have py: "parseYear (yearString y) = Some y"
    using day by (simp add: parseYear_yearString YearFromDay_range y_def)
  have pm: "parseTwoDigits (padStart 2 (digitsOf (m + 1))) = Some (m + 1)"
    using r by (intro parseTwoDigits_padStart) simp_all
  have pd: "parseTwoDigits (padStart 2 (digitsOf dt)) = Some dt"
    using r by (intro parseTwoDigits_padStart) simp_all
  have lm: "length (padStart 2 (digitsOf (m + 1))) = 2"
    using r by (intro padStart_length digitsOf_length) simp_all
  have ld: "length (padStart 2 (digitsOf dt)) = 2"
    using r by (intro padStart_length digitsOf_length) simp_all
  have iso: "toISODate t = yearString y @ ''-'' @ padStart 2 (digitsOf (m + 1))
               @ ''-'' @ padStart 2 (digitsOf dt)"
    by (simp add: toISODate_def Let_def day_def y_def dwy_def leap_def m_def dt_def)
  have "MakeDay y m dt = day"
    using r by (simp add: MakeDay_in_year leap_def dt_def DateFromDay_def m_def dwy_def)
  moreover have "\<bar>day * msPerDay\<bar> \<le> 8640000000000000"
    using day by (simp add: msPerDay_def abs_mult)
  ultimately show ?thesis
    using r dateParse_parts [OF lm ld, of "yearString y"]
    by (simp add: iso py pm pd TimeClip_def day_def)
qed

section \<open>The dates of the pipeline\<close>

lemma newDate_range: "newDate tz a b c = Some v \<Longrightarrow> \<bar>v\<bar> \<le> 8640000000000000"
  by (auto simp: newDate_def TimeClip_def Let_def split: option.splits if_splits)

lemma normalizeDate_Some:
  assumes "normalizeDate tz x = Some s"
  shows "\<exists>v. \<bar>v\<bar> \<le> 8640000000000000 \<and> s = toISODate v"
proof -
  from assms obtain a b c v where "newDate tz a b c = Some v" "s = toISODate v"
    by (auto simp: normalizeDate_def Let_def split: option.splits if_splits list.splits)
  then show ?thesis
    using newDate_range by blast
qed

text \<open>
  A transaction is dated when its date is \<^verbatim>\<open>null\<close> or the ISO date of a valid time
  value.
\<close>

definition dated :: "transaction \<Rightarrow> bool" where
  "dated t = (case date t of
                None \<Rightarrow> True
              | Some s \<Rightarrow> \<exists>v. \<bar>v\<bar> \<le> 8640000000000000 \<and> s = toISODate v)"

lemma extractDate_dated:
  "extractDate tz ps line = Some s \<Longrightarrow> \<exists>v. \<bar>v\<bar> \<le> 8640000000000000 \<and> s = toISODate v"
  by (induction ps) (auto split: list.splits dest: normalizeDate_Some)

lemma parseTransactionLine_dated:
  "parseTransactionLine tz st line = (Some t, st') \<Longrightarrow> dated t"
  by (auto simp: parseTransactionLine_def Let_def dated_def
      split: prod.splits if_splits option.splits dest: extractDate_dated)

lemma parseLines_dated: "list_all dated (fst (parseLines tz st ls))"
proof (induction ls arbitrary: st)
  case Nil
  then show ?case by simp
next
  case (Cons l ls)
  obtain r st1 where r: "parseTransactionLine tz st l = (r, st1)"
    by (cases "parseTransactionLine tz st l")
  obtain ts st2 where ts: "parseLines tz st1 ls = (ts, st2)"
    by (cases "parseLines tz st1 ls")
  from Cons.IH [of st1] ts have "list_all dated ts"
    by simp
  with r ts show ?case
    by (cases r) (auto dest: parseTransactionLine_dated)
qed

lemma cleanupTransactions_dated:
  assumes "list_all dated ts" "t \<in> set (cleanupTransactions ts)"
  shows "\<exists>v. date t = Some (toISODate v)
             \<and> dateValue (date t) = Some (v div msPerDay * msPerDay)"
proof -
  from assms(2) obtain u where u: "u \<in> set ts" "valid u" "t = withDefaults u"
    by (blast dest: cleanupTransactions_member)
  from u(2) obtain s where s: "date u = Some s"
    by (auto simp: valid_def truthyString_def split: option.splits)
  from assms(1) u(1) have "dated u"
    by (simp add: list_all_iff)
  with s obtain v where "\<bar>v\<bar> \<le> 8640000000000000" "s = toISODate v"
    by (auto simp: dated_def)
  with s u(3) show ?thesis
    by (auto simp: dateValue_def dateParse_toISODate)
qed

lemma parseTransactionText_dated:
  assumes "t \<in> set (fst (parseTransactionText tz st text))"
  shows "\<exists>v. date t = Some (toISODate v)
             \<and> dateValue (date t) = Some (v div msPerDay * msPerDay)"
proof -
  obtain ts st' where ts: "parseLines tz st (segmentLines text) = (ts, st')"
    by (cases "parseLines tz st (segmentLines text)")
  have "list_all dated ts"
    using parseLines_dated [of tz st "segmentLines text"] ts by simp
  moreover from assms ts have "t \<in> set (cleanupTransactions ts)"
    by (simp add: parseTransactionText_def)
  ultimately show ?thesis
    by (rule cleanupTransactions_dated)
qed

text \<open>
  The dates of the result are valid, so \<open>getDateRange\<close> does not throw: once the
  text of the document is there, \<open>processPDF\<close> succeeds.
\<close>

lemma hd_last_sortBy:
  assumes "xs \<noteq> []"
  shows "hd (sortBy cmp xs) \<in> set xs \<and> last (sortBy cmp xs) \<in> set xs"
proof -
  from assms have "sortBy cmp xs \<noteq> []"
    using set_sortBy [of cmp xs] by (metis set_empty)
  then have "hd (sortBy cmp xs) \<in> set (sortBy cmp xs)" "last (sortBy cmp xs) \<in> set (sortBy cmp xs)"
    by simp_all
  then show ?thesis
    by (simp add: set_sortBy)
qed

lemma processPDF_text_succeeds: "success (fst (processPDF tz st (Inr text)))"
proof -
  obtain ts st' where ts: "parseTransactionText tz st text = (ts, st')"
    by (cases "parseTransactionText tz st text")
  have "\<exists>dr. getDateRange ts = Inr dr"
  proof (cases "ts = []")
    case True
    then show ?thesis
      by (simp add: getDateRange_def)
  next
    case False
    define ds where "ds = map (\<lambda>t. dateValue (date t)) ts"
    have "\<exists>v. d = Some v" if "d \<in> set ds" for d
      using that parseTransactionText_dated [of _ tz st "text"] ts
      by (auto simp: ds_def)
    moreover from False have "hd (sortBy compareValues ds) \<in> set ds"
        "last (sortBy compareValues ds) \<in> set ds"
      using hd_last_sortBy [of ds compareValues] by (simp_all add: ds_def)
    ultimately obtain a b where "hd (sortBy compareValues ds) = Some a"
        "last (sortBy compareValues ds) = Some b"
      by blast
    with False show ?thesis
      by (simp add: getDateRange_def ds_def)
  qed
  with ts show ?thesis
    by (auto simp: processPDF_def)
qed

section \<open>Sortedness\<close>

lemma compareDates_values:
  "dateValue (date a) = Some x \<Longrightarrow> dateValue (date b) = Some y \<Longrightarrow> compareDates a b = x - y"
  by (simp add: compareDates_def)

lemma insertSorted_sorted:
  assumes "\<And>t. t \<in> set (x # xs) \<Longrightarrow> \<exists>v. dateValue (date t) = Some v"
    and "sorted (map (\<lambda>t. the (dateValue (date t))) xs)"
  shows "sorted (map (\<lambda>t. the (dateValue (date t))) (insertSorted compareDates x xs))"
  using assms
proof (induction xs)
  case Nil
  then show ?case by simp
next
  case (Cons y ys)
  obtain vx vy where v: "dateValue (date x) = Some vx" "dateValue (date y) = Some vy"
    using Cons.prems(1) [of x] Cons.prems(1) [of y] by auto
  show ?case
  proof (cases "compareDates x y \<le> 0")
    case True
    with v have "vx \<le> vy"
      by (simp add: compareDates_values)
    with True v Cons.prems(2) show ?thesis
      by auto
  next
    case False
    with v have "vy \<le> vx"
      by (simp add: compareDates_values)
    moreover have "sorted (map (\<lambda>t. the (dateValue (date t))) (insertSorted compareDates x ys))"
      using Cons.prems by (intro Cons.IH) auto
    ultimately show ?thesis
      using False v Cons.prems(2) by (auto simp: set_insertSorted)
  qed
qed

lemma sortBy_sorted:
  assumes "\<And>t. t \<in> set ts \<Longrightarrow> \<exists>v. dateValue (date t) = Some v"
  shows "sorted (map (\<lambda>t. the (dateValue (date t))) (sortBy compareDates ts))"
  using assms
proof (induction ts)
  case Nil
  then show ?case by (simp add: sortBy_def)
next
  case (Cons t ts)
  have "sorted (map (\<lambda>t. the (dateValue (date t))) (sortBy compareDates ts))"
    using Cons.prems by (intro Cons.IH) auto
  moreover have "\<And>u. u \<in> set (t # sortBy compareDates ts) \<Longrightarrow> \<exists>v. dateValue (date u) = Some v"
    using Cons.prems by (auto simp: set_sortBy)
  ultimately have "sorted (map (\<lambda>t. the (dateValue (date t)))
      (insertSorted compareDates t (sortBy compareDates ts)))"
    by (intro insertSorted_sorted)
  then show ?case
    by (simp add: sortBy_def)
qed

text \<open>
  C6. For every text, time zone and state of the processor, each transaction of
  the result carries the ISO date of a time value, which the comparator reads back
  as the start of that day, and these comparator values are non-decreasing along
  the result.
\<close>

theorem parseTransactionText_sorted_by_date:
  "list_all (\<lambda>t. \<exists>v. date t = Some (toISODate v)
                     \<and> dateValue (date t) = Some (v div msPerDay * msPerDay))
     (fst (parseTransactionText tz st text))
   \<and> (\<exists>ks. map (\<lambda>t. dateValue (date t)) (fst (parseTransactionText tz st text)) = map Some ks
           \<and> sorted ks)"
proof -
  obtain ts st' where ts: "parseLines tz st (segmentLines text) = (ts, st')"
    by (cases "parseLines tz st (segmentLines text)")
  define xs where "xs = map withDefaults
     (filter (\<lambda>t. positiveAmount (amount t))
       (filter (\<lambda>t. truthyString (date t) \<and> truthyAmount (amount t)
                     \<and> truthyString (description t)) ts))"
  have out: "fst (parseTransactionText tz st text) = sortBy compareDates xs"
    using ts by (simp add: parseTransactionText_def cleanupTransactions_def xs_def)
  have each: "\<exists>v. date t = Some (toISODate v)
                 \<and> dateValue (date t) = Some (v div msPerDay * msPerDay)"
    if "t \<in> set xs" for t
    using parseTransactionText_dated [of t tz st "text"] that by (simp add: out set_sortBy)
  define ks where "ks = map (\<lambda>t. the (dateValue (date t))) (sortBy compareDates xs)"
  have "sorted ks"
    unfolding ks_def using each by (intro sortBy_sorted) blast
  moreover have "dateValue (date t) = Some (the (dateValue (date t)))" if "t \<in> set xs" for t
    using each [OF that] by auto
  then have "map (\<lambda>t. dateValue (date t)) (sortBy compareDates xs) = map Some ks"
    unfolding ks_def by (simp add: set_sortBy)
  moreover have "list_all (\<lambda>t. \<exists>v. date t = Some (toISODate v)
                     \<and> dateValue (date t) = Some (v div msPerDay * msPerDay))
     (sortBy compareDates xs)"
    using each by (simp add: list_all_iff set_sortBy)
  ultimately show ?thesis
    unfolding out by blast
qed

theorem parseTransactionText_sorted_witness:
  "map date (fst (parseTransactionText utc initialState
      (''02/01/2024 02/02/2024 RENT $900.00'' @ [CHR 0x0A]
         @ ''01/15/2024 01/16/2024 COFFEE $5.00'')))
     = [Some ''2024-01-16'', Some ''2024-02-02'']
   \<and> (\<exists>ks. map (\<lambda>t. dateValue (date t)) (fst (parseTransactionText utc initialState
             (''02/01/2024 02/02/2024 RENT $900.00'' @ [CHR 0x0A]
                @ ''01/15/2024 01/16/2024 COFFEE $5.00''))) = map Some ks
           \<and> sorted ks)"
proof -
  have "map date (fst (parseTransactionText utc initialState
      (''02/01/2024 02/02/2024 RENT $900.00'' @ [CHR 0x0A]
         @ ''01/15/2024 01/16/2024 COFFEE $5.00'')))
     = [Some ''2024-01-16'', Some ''2024-02-02'']"
    by code_simp
  with parseTransactionText_sorted_by_date [of utc initialState
      "''02/01/2024 02/02/2024 RENT $900.00'' @ [CHR 0x0A]
         @ ''01/15/2024 01/16/2024 COFFEE $5.00''"]
  show ?thesis
    by blast
qed

end
